theory Spec2Isabelle
  imports Main "HOL-Library.Word"
begin

unbundle bit_operations_syntax

section \<open>Values shared by the whole client\<close>

text \<open>
  The wallbox client (\<^verbatim>\<open>keba.go\<close>) talks JSON over UDP. Every Go function that
  returns an \<^verbatim>\<open>error\<close> is modelled as a function that returns an
  \<open>error option\<close> next to its other results (\<open>None\<close> is Go's \<^verbatim>\<open>nil\<close>), so
  that a value written through a pointer before the error is returned stays visible.

  The errors are those of the standard library functions the client calls:
  \<^item> \<open>ErrSyntax\<close>, \<open>ErrRange\<close>, \<open>ErrBase\<close>, \<open>ErrBitSize\<close>: the
    \<^verbatim>\<open>strconv.NumError\<close> kinds of \<^verbatim>\<open>strconv.ParseInt\<close>;
  \<^item> \<open>UnmarshalTypeError v\<close>: \<^verbatim>\<open>json.UnmarshalTypeError\<close> with its \<^verbatim>\<open>Value\<close>
    field \<open>v\<close> (the JSON value that does not fit the Go type);
  \<^item> \<open>InvalidNumberLiteral\<close>: \<^verbatim>\<open>json: invalid number literal, trying to unmarshal
    ... into Number\<close>;
  \<^item> \<open>DialError\<close>, \<open>WriteError\<close>, \<open>ReadError\<close>: a failed \<^verbatim>\<open>net.DialUDP\<close>,
    \<^verbatim>\<open>conn.Write\<close>, and a failed read of the reply (deadline exceeded, or bytes
    that are not one well-formed JSON value).
\<close>

datatype error =
    ErrSyntax
  | ErrRange
  | ErrBase
  | ErrBitSize
  | UnmarshalTypeError string
  | InvalidNumberLiteral
  | DialError
  | WriteError
  | ReadError

text \<open>
  A reply that \<^verbatim>\<open>encoding/json\<close> has scanned as well-formed is a JSON value. A number
  keeps its literal text (the decoder converts it only when it knows the target type),
  a string holds its unquoted bytes, and an object is the list of its members in the
  order of the text, duplicates included.
\<close>

datatype json =
    JNull
  | JBool bool
  | JNumber string
  | JString string
  | JArray "json list"
  | JObject "(string \<times> json) list"

section \<open>strconv.ParseInt\<close>

text \<open>
  \<^verbatim>\<open>func lower(c byte) byte { return c | ('x' - 'X') }\<close>, on the byte's value.
\<close>

definition lower :: "nat \<Rightarrow> nat" where
  "lower c = c OR 32"

text \<open>
  The digit of one byte in the loop of \<^verbatim>\<open>strconv.ParseUint\<close>:
  \<^verbatim>\<open>
    case '0' <= c && c <= '9':                 d = c - '0'
    case 'a' <= lower(c) && lower(c) <= 'z':   d = lower(c) - 'a' + 10
    default:                                   return 0, syntaxError(fnParseUint, s0)
  \<close>
  (\<open>48\<close> is \<^verbatim>\<open>'0'\<close>, \<open>57\<close> is \<^verbatim>\<open>'9'\<close>, \<open>97\<close> is \<^verbatim>\<open>'a'\<close>, \<open>122\<close> is
  \<^verbatim>\<open>'z'\<close>). The case \<^verbatim>\<open>c == '_' && base0\<close> before these applies to base 0 only,
  which no caller in this program uses.
\<close>

definition digit :: "char \<Rightarrow> nat option" where
  "digit c =
     (let b = (of_char c :: nat) in
      if 48 \<le> b \<and> b \<le> 57 then Some (b - 48)
      else if 97 \<le> lower b \<and> lower b \<le> 122 then Some (lower b - 97 + 10)
      else None)"

definition maxUint64 :: nat where
  "maxUint64 = 2 ^ 64 - 1"

text \<open>
  The loop of \<^verbatim>\<open>ParseUint\<close> over the bytes of the string; \<open>n\<close> is the
  \<^verbatim>\<open>uint64\<close> accumulated so far, its arithmetic written modulo \<open>2 ^ 64\<close>:
  \<^verbatim>\<open>
    if d >= byte(base) { return 0, syntaxError(fnParseUint, s0) }
    if n >= cutoff     { return maxVal, rangeError(fnParseUint, s0) }   // n*base overflows
    n *= uint64(base)
    n1 := n + uint64(d)
    if n1 < n || n1 > maxVal { return maxVal, rangeError(fnParseUint, s0) }
    n = n1
  \<close>
\<close>

fun ParseUint_loop :: "nat \<Rightarrow> nat \<Rightarrow> nat \<Rightarrow> nat \<Rightarrow> string \<Rightarrow> nat \<times> error option" where
  "ParseUint_loop base cutoff maxVal n [] = (n, None)"
| "ParseUint_loop base cutoff maxVal n (c # cs) =
     (case digit c of
        None \<Rightarrow> (0, Some ErrSyntax)
      | Some d \<Rightarrow>
          if d \<ge> base then (0, Some ErrSyntax)
          else if n \<ge> cutoff then (maxVal, Some ErrRange)
          else
            let n' = (n * base) mod 2 ^ 64;
                n1 = (n' + d) mod 2 ^ 64
            in if n1 < n' \<or> n1 > maxVal then (maxVal, Some ErrRange)
               else ParseUint_loop base cutoff maxVal n1 cs)"

text \<open>
  \<^verbatim>\<open>strconv.ParseUint(s, base, bitSize)\<close> for an explicit base \<open>2 .. 36\<close> (the
  callers here pass 16 and 10; base 0, which would look for a prefix in the string, is
  not modelled and no caller uses it). \<open>cutoff\<close> is the smallest number whose
  product with the base overflows 64 bits, \<open>maxVal\<close> is
  \<^verbatim>\<open>uint64(1)<<uint(bitSize) - 1\<close>.
\<close>

definition ParseUint :: "string \<Rightarrow> nat \<Rightarrow> nat \<Rightarrow> nat \<times> error option" where
  "ParseUint s base bitSize =
     (if s = [] then (0, Some ErrSyntax)
      else if \<not> (2 \<le> base \<and> base \<le> 36) then (0, Some ErrBase)
      else if bitSize > 64 then (0, Some ErrBitSize)
      else
        let bits = (if bitSize = 0 then 64 else bitSize);
            cutoff = maxUint64 div base + 1;
            maxVal = 2 ^ bits - 1
        in ParseUint_loop base cutoff maxVal 0 s)"

text \<open>
  \<^verbatim>\<open>strconv.ParseInt(s, base, bitSize)\<close>: an optional sign, then \<^verbatim>\<open>ParseUint\<close>,
  then the check against the signed range of \<open>bitSize\<close> bits:
  \<^verbatim>\<open>
    if s == "" { return 0, syntaxError(fnParseInt, s) }
    s0 := s; neg := false
    if s[0] == '+' { s = s[1:] } else if s[0] == '-' { neg = true; s = s[1:] }
    un, err = ParseUint(s, base, bitSize)
    if err != nil && err.(*NumError).Err != ErrRange { ...; return 0, err }
    if bitSize == 0 { bitSize = IntSize }
    cutoff := uint64(1 << uint(bitSize-1))
    if !neg && un >= cutoff { return int64(cutoff - 1), rangeError(fnParseInt, s0) }
    if neg && un > cutoff   { return -int64(cutoff), rangeError(fnParseInt, s0) }
    n := int64(un)
    if neg { n = -n }
    return n, nil
  \<close>
\<close>

definition ParseInt :: "string \<Rightarrow> nat \<Rightarrow> nat \<Rightarrow> int \<times> error option" where
  "ParseInt s base bitSize =
     (case s of
        [] \<Rightarrow> (0, Some ErrSyntax)
      | c # cs \<Rightarrow>
          let neg = (c = CHR ''-'');
              s' = (if c = CHR ''+'' \<or> c = CHR ''-'' then cs else s);
              (un, err) = ParseUint s' base bitSize
          in if err \<noteq> None \<and> err \<noteq> Some ErrRange then (0, err)
             else
               let bits = (if bitSize = 0 then 64 else bitSize);
                   cutoff = (2 :: nat) ^ (bits - 1)
               in if \<not> neg \<and> un \<ge> cutoff then (int (cutoff - 1), Some ErrRange)
                  else if neg \<and> un > cutoff then (- int cutoff, Some ErrRange)
                  else (if neg then - int un else int un, None))"

section \<open>strings.TrimPrefix\<close>

text \<open>
  \<^verbatim>\<open>
    func HasPrefix(s, prefix string) bool {
        return len(s) >= len(prefix) && s[:len(prefix)] == prefix }
    func TrimPrefix(s, prefix string) string {
        if HasPrefix(s, prefix) { return s[len(prefix):] }
        return s }
  \<close>
\<close>

definition HasPrefix :: "string \<Rightarrow> string \<Rightarrow> bool" where
  "HasPrefix s p = (length s \<ge> length p \<and> take (length p) s = p)"

definition TrimPrefix :: "string \<Rightarrow> string \<Rightarrow> string" where
  "TrimPrefix s p = (if HasPrefix s p then drop (length p) s else s)"

section \<open>The DIP switch register\<close>

text \<open>\<^verbatim>\<open>type DIPs uint16\<close>\<close>

type_synonym DIPs = "16 word"

text \<open>\<^verbatim>\<open>func (d DIPs) Has(i uint16) bool { return uint16(d)&i != 0 }\<close>\<close>

definition DIPs_Has :: "DIPs \<Rightarrow> 16 word \<Rightarrow> bool" where
  "DIPs_Has d i = (d AND i \<noteq> 0)"

text \<open>
  \<^verbatim>\<open>json.Unmarshal(data, &s)\<close> with \<^verbatim>\<open>var s string\<close>: a JSON string is stored, a
  JSON \<^verbatim>\<open>null\<close> leaves the variable as it is and is no error, every other value is
  an \<^verbatim>\<open>UnmarshalTypeError\<close> naming the kind of the value.
\<close>

fun json_Unmarshal_string :: "json \<Rightarrow> string \<Rightarrow> string \<times> error option" where
  "json_Unmarshal_string (JString t) s = (t, None)"
| "json_Unmarshal_string JNull s = (s, None)"
| "json_Unmarshal_string (JNumber n) s = (s, Some (UnmarshalTypeError ''number''))"
| "json_Unmarshal_string (JBool b) s = (s, Some (UnmarshalTypeError ''bool''))"
| "json_Unmarshal_string (JArray xs) s = (s, Some (UnmarshalTypeError ''array''))"
| "json_Unmarshal_string (JObject kvs) s = (s, Some (UnmarshalTypeError ''object''))"

text \<open>
  \<^verbatim>\<open>
    func (d *DIPs) UnmarshalJSON(data []byte) error {
        var s string
        if err := json.Unmarshal(data, &s); err != nil { return err }
        i, err := strconv.ParseInt(strings.TrimPrefix(s, "0x"), 16, 16)
        if err != nil { return err }
        *d = DIPs(i)
        return nil
    }
  \<close>
  The first component of the result is the register \<^verbatim>\<open>*d\<close> after the call. The
  conversion \<^verbatim>\<open>DIPs(i)\<close> of an \<^verbatim>\<open>int64\<close> keeps the low 16 bits.
\<close>

definition DIPs_UnmarshalJSON :: "DIPs \<Rightarrow> json \<Rightarrow> DIPs \<times> error option" where
  "DIPs_UnmarshalJSON d data =
     (case json_Unmarshal_string data [] of
        (s, Some err) \<Rightarrow> (d, Some err)
      | (s, None) \<Rightarrow>
          (case ParseInt (TrimPrefix s ''0x'') 16 16 of
             (i, Some err) \<Rightarrow> (d, Some err)
           | (i, None) \<Rightarrow> (word_of_int i, None)))"

text \<open>
  \<^verbatim>\<open>fmt.Sprintf\<close> with the verbs \<^verbatim>\<open>%x\<close> and \<^verbatim>\<open>%b\<close> on an unsigned integer: its
  digits in base 16 (lower case) and in base 2, without leading zeros.
\<close>

fun fmt_x :: "nat \<Rightarrow> string" where
  "fmt_x n =
     (if n < 16 then [''0123456789abcdef'' ! n]
      else fmt_x (n div 16) @ [''0123456789abcdef'' ! (n mod 16)])"

declare fmt_x.simps [simp del]

fun fmt_b :: "nat \<Rightarrow> string" where
  "fmt_b n = (if n < 2 then [''01'' ! n] else fmt_b (n div 2) @ [''01'' ! (n mod 2)])"

declare fmt_b.simps [simp del]

text \<open>
  \<^verbatim>\<open>keba.go\<close>:
  \<^verbatim>\<open>func (d *DIPs) String() string { return fmt.Sprintf("%016b", *d) }\<close>,
  the binary digits padded with zeros on the left to 16 characters, and
  \<^verbatim>\<open>func (d *DIPs) MarshalJSON() ([]byte, error) { return []byte(d.String()), nil }\<close>.
\<close>

definition DIPs_String :: "DIPs \<Rightarrow> string" where
  "DIPs_String d =
     (let s = fmt_b (unat d) in replicate (16 - length s) (CHR ''0'') @ s)"

definition DIPs_MarshalJSON :: "DIPs \<Rightarrow> string \<times> error option" where
  "DIPs_MarshalJSON d = (DIPs_String d, None)"

text \<open>
  The other version of the file (\<^verbatim>\<open>src/unnamed/part_002\<close>) has the same
  \<^verbatim>\<open>UnmarshalJSON\<close> and
  \<^verbatim>\<open>func (d *DIPs) String() string { return fmt.Sprintf("0x%x", uint16(*d)) }\<close>.
\<close>

definition DIPs_String_0x :: "DIPs \<Rightarrow> string" where
  "DIPs_String_0x d = ''0x'' @ fmt_x (unat d)"

section \<open>encoding/json: storing one value\<close>

text \<open>
  What \<^verbatim>\<open>decodeState.value\<close> does with one JSON value and one Go variable. Besides
  the variable it yields an outcome:
  \<^item> \<open>Fine\<close>: the value was stored, or it was \<^verbatim>\<open>null\<close> and the variable was left
    alone;
  \<^item> \<open>Saved e\<close>: \<^verbatim>\<open>d.saveError(e)\<close>, the value does not fit the variable; the
    variable is skipped and decoding goes on (\<^verbatim>\<open>Unmarshal\<close> "skips that field and
    completes the unmarshaling as best it can" and returns the earliest such error);
  \<^item> \<open>Returned e\<close>: the error is returned at once and decoding stops.
\<close>

datatype outcome = Fine | Saved error | Returned error

text \<open>
  A variable of kind \<^verbatim>\<open>int\<close> (64 bits): a number literal goes through
  \<^verbatim>\<open>strconv.ParseInt(s, 10, 64)\<close>, and a literal that fails there (a fraction, an
  exponent, too large) is the saved error \<^verbatim>\<open>UnmarshalTypeError{Value: "number " + s}\<close>.
\<close>

fun decode_int :: "json \<Rightarrow> int \<Rightarrow> int \<times> outcome" where
  "decode_int JNull x = (x, Fine)"
| "decode_int (JNumber s) x =
     (case ParseInt s 10 64 of
        (n, None) \<Rightarrow> (n, Fine)
      | (n, Some err) \<Rightarrow> (x, Saved (UnmarshalTypeError (''number '' @ s))))"
| "decode_int (JString t) x = (x, Saved (UnmarshalTypeError ''string''))"
| "decode_int (JBool b) x = (x, Saved (UnmarshalTypeError ''bool''))"
| "decode_int (JArray xs) x = (x, Saved (UnmarshalTypeError ''array''))"
| "decode_int (JObject kvs) x = (x, Saved (UnmarshalTypeError ''object''))"

text \<open>A variable of kind \<^verbatim>\<open>string\<close> that is not a \<^verbatim>\<open>json.Number\<close>.\<close>

fun decode_string :: "json \<Rightarrow> string \<Rightarrow> string \<times> outcome" where
  "decode_string JNull x = (x, Fine)"
| "decode_string (JString t) x = (t, Fine)"
| "decode_string (JNumber s) x = (x, Saved (UnmarshalTypeError ''number''))"
| "decode_string (JBool b) x = (x, Saved (UnmarshalTypeError ''bool''))"
| "decode_string (JArray xs) x = (x, Saved (UnmarshalTypeError ''array''))"
| "decode_string (JObject kvs) x = (x, Saved (UnmarshalTypeError ''object''))"

text \<open>
  \<^verbatim>\<open>isValidNumber\<close> of \<^verbatim>\<open>encoding/json\<close>, the grammar of a JSON number: an optional
  minus, then \<^verbatim>\<open>0\<close> or a digit \<^verbatim>\<open>1-9\<close> with more digits, then optionally a dot
  with at least one digit, then optionally \<^verbatim>\<open>e\<close> or \<^verbatim>\<open>E\<close> with an optional sign
  and digits, and nothing after that.
\<close>

definition is_digit :: "char \<Rightarrow> bool" where
  "is_digit c = (48 \<le> (of_char c :: nat) \<and> (of_char c :: nat) \<le> 57)"

definition number_int_part :: "string \<Rightarrow> string option" where
  "number_int_part s =
     (case s of
        [] \<Rightarrow> None
      | c # cs \<Rightarrow>
          if c = CHR ''0'' then Some cs
          else if 49 \<le> (of_char c :: nat) \<and> (of_char c :: nat) \<le> 57
               then Some (dropWhile is_digit cs)
          else None)"

definition number_frac_part :: "string \<Rightarrow> string" where
  "number_frac_part s =
     (case s of
        c # d # ds \<Rightarrow> if c = CHR ''.'' \<and> is_digit d then dropWhile is_digit ds else s
      | _ \<Rightarrow> s)"

definition number_exp_part :: "string \<Rightarrow> string option" where
  "number_exp_part s =
     (case s of
        c # d # ds \<Rightarrow>
          if c = CHR ''e'' \<or> c = CHR ''E'' then
            (if d = CHR ''+'' \<or> d = CHR ''-''
             then (if ds = [] then None else Some (dropWhile is_digit ds))
             else Some (dropWhile is_digit (d # ds)))
          else Some s
      | _ \<Rightarrow> Some s)"

definition isValidNumber :: "string \<Rightarrow> bool" where
  "isValidNumber s =
     (case s of
        [] \<Rightarrow> False
      | c # cs \<Rightarrow>
          (case number_int_part (if c = CHR ''-'' then cs else s) of
             None \<Rightarrow> False
           | Some s1 \<Rightarrow>
               (case number_exp_part (number_frac_part s1) of
                  None \<Rightarrow> False
                | Some s2 \<Rightarrow> s2 = [])))"

text \<open>
  A variable of type \<^verbatim>\<open>json.Number\<close> (a string type): a number literal is stored as
  its text; a JSON string is stored if it is a valid number and is otherwise the
  returned error \<^verbatim>\<open>json: invalid number literal, trying to unmarshal ... into
  Number\<close>; a boolean, an array or an object is a saved \<^verbatim>\<open>UnmarshalTypeError\<close>.
\<close>

fun decode_Number :: "json \<Rightarrow> string \<Rightarrow> string \<times> outcome" where
  "decode_Number JNull x = (x, Fine)"
| "decode_Number (JNumber s) x = (s, Fine)"
| "decode_Number (JString t) x =
     (if isValidNumber t then (t, Fine) else (x, Returned InvalidNumberLiteral))"
| "decode_Number (JBool b) x = (x, Saved (UnmarshalTypeError ''bool''))"
| "decode_Number (JArray xs) x = (x, Saved (UnmarshalTypeError ''array''))"
| "decode_Number (JObject kvs) x = (x, Saved (UnmarshalTypeError ''object''))"

text \<open>\<^verbatim>\<open>func (n Number) Int64() (int64, error) { return strconv.ParseInt(string(n), 10, 64) }\<close>\<close>

definition Number_Int64 :: "string \<Rightarrow> int \<times> error option" where
  "Number_Int64 n = ParseInt n 10 64"



section \<open>encoding/json: objects into structs\<close>

text \<open>
  The key of a member selects the struct field whose JSON name equals it, or else the
  first field (in the order of the struct) whose name equals it under Unicode case
  folding. \<^verbatim>\<open>foldName\<close> of \<^verbatim>\<open>encoding/json\<close> maps a name to the one it is compared
  by:
  \<^verbatim>\<open>
    if c := in[i]; c < utf8.RuneSelf {
        if 'a' <= c && c <= 'z' { c -= 'a' - 'A' }
        out = append(out, c); i++; continue
    }
    r, n := utf8.DecodeRune(in[i:])
    out = utf8.AppendRune(out, foldRune(r))
    i += n
  \<close>
  where \<^verbatim>\<open>foldRune\<close> gives the smallest character that differs from \<^verbatim>\<open>r\<close> in
  case only. Just two characters outside ASCII fold into ASCII: the long s, U+017F
  (the bytes \<open>197, 191\<close> in UTF-8), onto \<^verbatim>\<open>S\<close> (\<open>83\<close>), and the Kelvin sign,
  U+212A (the bytes \<open>226, 132, 170\<close>), onto \<^verbatim>\<open>K\<close> (\<open>75\<close>). Every other
  character outside ASCII, and every byte that is not part of well-formed UTF-8, folds
  to a character outside ASCII; the model keeps its bytes. So the model's folded name
  is the library's whenever that is ASCII, and \<open>equalFold\<close> decides as the library
  does whenever one of the two names is ASCII, as the names of all fields here are.
\<close>

definition fold_byte :: "char \<Rightarrow> nat" where
  "fold_byte c = (let b = (of_char c :: nat) in if 97 \<le> b \<and> b \<le> 122 then b - 32 else b)"

fun foldName :: "string \<Rightarrow> nat list" where
  "foldName (c # d # e # es) =
     (if (of_char c :: nat) = 226 \<and> (of_char d :: nat) = 132 \<and> (of_char e :: nat) = 170
        then 75 # foldName es
      else if (of_char c :: nat) = 197 \<and> (of_char d :: nat) = 191
        then 83 # foldName (e # es)
      else fold_byte c # foldName (d # e # es))"
| "foldName [c, d] =
     (if (of_char c :: nat) = 197 \<and> (of_char d :: nat) = 191 then [83]
      else fold_byte c # foldName [d])"
| "foldName [c] = [fold_byte c]"
| "foldName [] = []"

definition equalFold :: "string \<Rightarrow> string \<Rightarrow> bool" where
  "equalFold a b = (foldName a = foldName b)"

definition field_of :: "string list \<Rightarrow> string \<Rightarrow> string option" where
  "field_of names key =
     (if key \<in> set names then Some key else find (\<lambda>n. equalFold n key) names)"

text \<open>
  The loop of \<^verbatim>\<open>decodeState.object\<close> over the members, for a struct whose fields are
  stored by \<open>store key value\<close>. \<open>saved\<close> is \<^verbatim>\<open>d.savedError\<close>, which keeps the
  first error saved.
\<close>

fun object_members ::
  "(string \<Rightarrow> json \<Rightarrow> 'r \<Rightarrow> 'r \<times> outcome) \<Rightarrow> (string \<times> json) list \<Rightarrow> 'r \<Rightarrow> error option
     \<Rightarrow> 'r \<times> error option" where
  "object_members store [] r saved = (r, saved)"
| "object_members store ((k, v) # kvs) r saved =
     (case store k v r of
        (r', Fine) \<Rightarrow> object_members store kvs r' saved
      | (r', Saved e) \<Rightarrow> object_members store kvs r' (if saved = None then Some e else saved)
      | (r', Returned e) \<Rightarrow> (r', Some e))"

text \<open>
  \<^verbatim>\<open>json.Unmarshal(data, ptr)\<close> for a pointer to a struct without an
  \<^verbatim>\<open>UnmarshalJSON\<close> of its own: an object is read member by member, \<^verbatim>\<open>null\<close>
  changes nothing, any other value is an \<^verbatim>\<open>UnmarshalTypeError\<close>.
\<close>

fun json_Unmarshal ::
  "(string \<Rightarrow> json \<Rightarrow> 'r \<Rightarrow> 'r \<times> outcome) \<Rightarrow> json \<Rightarrow> 'r \<Rightarrow> 'r \<times> error option" where
  "json_Unmarshal store (JObject kvs) r = object_members store kvs r None"
| "json_Unmarshal store JNull r = (r, None)"
| "json_Unmarshal store (JNumber s) r = (r, Some (UnmarshalTypeError ''number''))"
| "json_Unmarshal store (JString t) r = (r, Some (UnmarshalTypeError ''string''))"
| "json_Unmarshal store (JBool b) r = (r, Some (UnmarshalTypeError ''bool''))"
| "json_Unmarshal store (JArray xs) r = (r, Some (UnmarshalTypeError ''array''))"

section \<open>The reports\<close>

text \<open>
  The structs of \<^verbatim>\<open>keba.go\<close> with their fields in the order of the source. A Go
  \<^verbatim>\<open>int\<close> is 64 bits wide; every value stored below comes out of
  \<^verbatim>\<open>strconv.ParseInt(s, 10, 64)\<close> and no arithmetic is done on it, so \<open>int\<close>
  holds it without wrap-around.
\<close>

record System =
  Product :: string
  Serial :: string
  Firmware :: string
  COMModule :: int
  Backend :: int
  DIPs :: DIPs

record Config =
  State :: int
  Plug :: int
  MaxCurrent :: int
  CurrentLimit :: int
  EnergyLimit :: int
  Seconds :: int

record Session =
  Energy :: int
  Total :: int
  Voltage1 :: int
  Voltage2 :: int
  Voltage3 :: int
  Current1 :: int
  Current2 :: int
  Current3 :: int
  Power :: int

record Log =
  Session :: int
  MaxCurrent :: int
  StartTotal :: int
  Energy :: int
  Start :: int
  End :: int
  EndReason :: int
  RFIDTag :: string
  RFIDClass :: string

record udpLog =
  Session :: int
  MaxCurrent :: int
  StartTotal :: int
  Energy :: int
  Start :: int
  End :: int
  EndReason :: int
  RFIDTag :: string
  RFIDClass :: string

text \<open>
  The anonymous struct \<^verbatim>\<open>times\<close> of \<^verbatim>\<open>udpLog.UnmarshalJSON\<close>; both fields are
  \<^verbatim>\<open>json.Number\<close>.
\<close>

record times =
  t_Start :: string
  t_End :: string




definition zero_udpLog :: udpLog where
  "zero_udpLog =
     \<lparr>udpLog.Session = 0, MaxCurrent = 0, StartTotal = 0, Energy = 0, Start = 0, End = 0,
      EndReason = 0, RFIDTag = [], RFIDClass = []\<rparr>"

definition zero_times :: times where
  "zero_times = \<lparr>t_Start = [], t_End = []\<rparr>"

text \<open>The conversion \<^verbatim>\<open>Log(l)\<close> of a \<^verbatim>\<open>udpLog\<close>: the same fields.\<close>

definition Log_of :: "udpLog \<Rightarrow> Log" where
  "Log_of l =
     \<lparr>Log.Session = udpLog.Session l, MaxCurrent = udpLog.MaxCurrent l,
      StartTotal = udpLog.StartTotal l, Energy = udpLog.Energy l, Start = udpLog.Start l,
      End = udpLog.End l, EndReason = udpLog.EndReason l, RFIDTag = udpLog.RFIDTag l,
      RFIDClass = udpLog.RFIDClass l\<rparr>"

subsection \<open>The key tables of the struct tags\<close>

definition System_fields :: "string list" where
  "System_fields = [''Product'', ''Serial'', ''Firmware'', ''COM-module'', ''Backend'', ''DIP-Sw'']"






text \<open>
  \<^verbatim>\<open>udpLog\<close>: the fields \<^verbatim>\<open>Start\<close> and \<^verbatim>\<open>End\<close> carry no tag, so their JSON
  names are the field names.
\<close>

definition udpLog_fields :: "string list" where
  "udpLog_fields =
     [''Session ID'', ''Curr HW'', ''E Start'', ''E Pres'', ''Start'', ''End'', ''reason'',
      ''RFID tag'', ''RFID class'']"

definition udpLog_store :: "string \<Rightarrow> json \<Rightarrow> udpLog \<Rightarrow> udpLog \<times> outcome" where
  "udpLog_store key v l =
     (case field_of udpLog_fields key of
        None \<Rightarrow> (l, Fine)
      | Some f \<Rightarrow>
          if f = ''Session ID'' then (case decode_int v (udpLog.Session l) of (x, oc) \<Rightarrow> (l\<lparr>udpLog.Session := x\<rparr>, oc))
          else if f = ''Curr HW'' then (case decode_int v (udpLog.MaxCurrent l) of (x, oc) \<Rightarrow> (l\<lparr>udpLog.MaxCurrent := x\<rparr>, oc))
          else if f = ''E Start'' then (case decode_int v (udpLog.StartTotal l) of (x, oc) \<Rightarrow> (l\<lparr>udpLog.StartTotal := x\<rparr>, oc))
          else if f = ''E Pres'' then (case decode_int v (udpLog.Energy l) of (x, oc) \<Rightarrow> (l\<lparr>udpLog.Energy := x\<rparr>, oc))
          else if f = ''Start'' then (case decode_int v (udpLog.Start l) of (x, oc) \<Rightarrow> (l\<lparr>udpLog.Start := x\<rparr>, oc))
          else if f = ''End'' then (case decode_int v (udpLog.End l) of (x, oc) \<Rightarrow> (l\<lparr>udpLog.End := x\<rparr>, oc))
          else if f = ''reason'' then (case decode_int v (udpLog.EndReason l) of (x, oc) \<Rightarrow> (l\<lparr>udpLog.EndReason := x\<rparr>, oc))
          else if f = ''RFID tag'' then (case decode_string v (udpLog.RFIDTag l) of (x, oc) \<Rightarrow> (l\<lparr>udpLog.RFIDTag := x\<rparr>, oc))
          else (case decode_string v (udpLog.RFIDClass l) of (x, oc) \<Rightarrow> (l\<lparr>udpLog.RFIDClass := x\<rparr>, oc)))"

definition times_fields :: "string list" where
  "times_fields = [''started[s]'', ''ended[s]'']"

definition times_store :: "string \<Rightarrow> json \<Rightarrow> times \<Rightarrow> times \<times> outcome" where
  "times_store key v t =
     (case field_of times_fields key of
        None \<Rightarrow> (t, Fine)
      | Some f \<Rightarrow>
          if f = ''started[s]'' then (case decode_Number v (t_Start t) of (x, oc) \<Rightarrow> (t\<lparr>t_Start := x\<rparr>, oc))
          else (case decode_Number v (t_End t) of (x, oc) \<Rightarrow> (t\<lparr>t_End := x\<rparr>, oc)))"

subsection \<open>The history slot\<close>

text \<open>
  \<^verbatim>\<open>
    func (l *udpLog) UnmarshalJSON(data []byte) error {
        type T *udpLog
        if err := json.Unmarshal(data, T(l)); err != nil { return err }
        var times struct {
            Start json.Number `json:"started[s]"`
            End   json.Number `json:"ended[s]"`
        }
        if err := json.Unmarshal(data, &times); err != nil { return err }
        if i, err := times.Start.Int64(); err == nil { l.Start = int(i) }
        if i, err := times.End.Int64(); err == nil { l.End = int(i) }
        return nil
    }
  \<close>
  The first \<^verbatim>\<open>Unmarshal\<close> writes through \<^verbatim>\<open>l\<close>, so what it stored before an error
  stays in the entry. The type \<^verbatim>\<open>T\<close> has no methods, and the decoder of
  \<^verbatim>\<open>encoding/json\<close> before version 2 therefore stores the fields of the struct
  behind it without calling \<^verbatim>\<open>UnmarshalJSON\<close> again; that decoder is the one
  modelled here.
\<close>

definition udpLog_UnmarshalJSON :: "udpLog \<Rightarrow> json \<Rightarrow> udpLog \<times> error option" where
  "udpLog_UnmarshalJSON l data =
     (case json_Unmarshal udpLog_store data l of
        (l1, Some err) \<Rightarrow> (l1, Some err)
      | (l1, None) \<Rightarrow>
          (case json_Unmarshal times_store data zero_times of
             (t, Some err) \<Rightarrow> (l1, Some err)
           | (t, None) \<Rightarrow>
               let l2 = (case Number_Int64 (t_Start t) of
                           (i, None) \<Rightarrow> l1\<lparr>udpLog.Start := i\<rparr>
                         | (i, Some err) \<Rightarrow> l1);
                   l3 = (case Number_Int64 (t_End t) of
                           (i, None) \<Rightarrow> l2\<lparr>udpLog.End := i\<rparr>
                         | (i, Some err) \<Rightarrow> l2)
               in (l3, None)))"

section \<open>The UDP client\<close>

text \<open>
  One exchange with the wallbox, as the client sees it: the dial fails, the write fails,
  no well-formed reply arrives before the deadline, or a JSON value arrives. A client
  \<^verbatim>\<open>u *udp\<close> is modelled by what the network and the wallbox at \<^verbatim>\<open>u.addr\<close> do
  with each command. The mutex \<^verbatim>\<open>u.mu\<close> is taken on entry of \<^verbatim>\<open>msg\<close> and released
  on every return; in a run of a single caller it changes nothing and is left out.
\<close>

datatype exchange = DialFails | WriteFails | ReadFails | Replies json

type_synonym udp = "string \<Rightarrow> exchange"

text \<open>
  \<^verbatim>\<open>
    func (u *udp) msg(cmd string, ptr interface{}) error {
        u.mu.Lock()
        defer u.mu.Unlock()
        ...
        conn, err := net.DialUDP("udp", laddr, raddr)
        if err != nil { return err }
        defer conn.Close()
        if _, err := conn.Write([]byte(cmd)); err != nil { return err }
        conn.SetReadDeadline(time.Now().Add(2 * time.Second))
        return json.NewDecoder(conn).Decode(&ptr)
    }
  \<close>
  \<open>decode\<close> is what \<^verbatim>\<open>Decode\<close> does for the type of the struct behind
  \<^verbatim>\<open>ptr\<close>; the first component of the result is that struct after the call.
\<close>

definition udp_msg ::
  "udp \<Rightarrow> string \<Rightarrow> (json \<Rightarrow> 'a \<Rightarrow> 'a \<times> error option) \<Rightarrow> 'a \<Rightarrow> 'a \<times> error option" where
  "udp_msg u cmd decode ptr =
     (case u cmd of
        DialFails \<Rightarrow> (ptr, Some DialError)
      | WriteFails \<Rightarrow> (ptr, Some WriteError)
      | ReadFails \<Rightarrow> (ptr, Some ReadError)
      | Replies j \<Rightarrow> decode j ptr)"

text \<open>
  \<^verbatim>\<open>Decode\<close> for a \<^verbatim>\<open>*udpLog\<close>: the pointer implements \<^verbatim>\<open>json.Unmarshaler\<close>,
  which is called for every value but a top-level \<^verbatim>\<open>null\<close>.
\<close>

definition Decode_udpLog :: "json \<Rightarrow> udpLog \<Rightarrow> udpLog \<times> error option" where
  "Decode_udpLog j l = (if j = JNull then (l, None) else udpLog_UnmarshalJSON l j)"




subsection \<open>The history\<close>

text \<open>\<^verbatim>\<open>fmt.Sprintf("%d", i)\<close>: the decimal digits, after a minus sign if negative.\<close>

fun fmt_nat :: "nat \<Rightarrow> string" where
  "fmt_nat n =
     (if n < 10 then [''0123456789'' ! n]
      else fmt_nat (n div 10) @ [''0123456789'' ! (n mod 10)])"

declare fmt_nat.simps [simp del]

definition fmt_d :: "int \<Rightarrow> string" where
  "fmt_d i = (if i < 0 then CHR ''-'' # fmt_nat (nat (- i)) else fmt_nat (nat i))"

text \<open>
  \<^verbatim>\<open>
    func (u *udp) History() ([]Log, error) {
        hist := make([]Log, 0, 30)
        for i := 100; i <= 130; i++ {
            var l udpLog
            cmd := fmt.Sprintf("report %d", i)
            if err := u.msg(cmd, &l); err != nil { return nil, err }
            if l.Session < 0 { break }
            if l.Session == 0 { continue }
            if len(hist) > 0 && l.Session == hist[len(hist)-1].Session { continue }
            hist = append(hist, Log(l))
        }
        return hist, nil
    }
  \<close>
  The loop from slot \<open>i\<close> on, with the list \<open>hist\<close> accumulated so far. Besides
  the two results of the Go function (\<^verbatim>\<open>nil\<close> is the empty list) it yields the
  commands for which \<^verbatim>\<open>msg\<close> was called, in order; \<open>sent\<close> holds those of the
  earlier slots.
\<close>

function History_loop ::
  "udp \<Rightarrow> int \<Rightarrow> Log list \<Rightarrow> string list \<Rightarrow> Log list \<times> error option \<times> string list" where
  "History_loop u i hist sent =
     (if i \<le> 130 then
        (let cmd = ''report '' @ fmt_d i in
         case udp_msg u cmd Decode_udpLog zero_udpLog of
           (l, Some err) \<Rightarrow> ([], Some err, sent @ [cmd])
         | (l, None) \<Rightarrow>
             if udpLog.Session l < 0 then (hist, None, sent @ [cmd])
             else if udpLog.Session l = 0 then History_loop u (i + 1) hist (sent @ [cmd])
             else if length hist > 0 \<and> udpLog.Session l = Log.Session (last hist)
               then History_loop u (i + 1) hist (sent @ [cmd])
             else History_loop u (i + 1) (hist @ [Log_of l]) (sent @ [cmd]))
      else (hist, None, sent))"
  by pat_completeness auto
termination
  by (relation "measure (\<lambda>(u, i, hist, sent). nat (131 - i))") auto

declare History_loop.simps [simp del]

definition udp_History :: "udp \<Rightarrow> Log list \<times> error option" where
  "udp_History u = (case History_loop u 100 [] [] of (hist, err, sent) \<Rightarrow> (hist, err))"

text \<open>The commands that one call of \<^verbatim>\<open>History\<close> sends, in order.\<close>

definition History_sent :: "udp \<Rightarrow> string list" where
  "History_sent u = (case History_loop u 100 [] [] of (hist, err, sent) \<Rightarrow> sent)"

section \<open>Notions used to state the properties\<close>

subsection \<open>Hexadecimal strings\<close>

text \<open>
  The hex digits, without regard to case, with their values; the value of a string of
  hex digits; the strings "of the form \<^verbatim>\<open>0x<hex>\<close>": the prefix \<^verbatim>\<open>0x\<close>, then one or
  more hex digits.
\<close>

definition hex_table :: "(char \<times> nat) list" where
  "hex_table =
     [(CHR ''0'', 0), (CHR ''1'', 1), (CHR ''2'', 2), (CHR ''3'', 3), (CHR ''4'', 4),
      (CHR ''5'', 5), (CHR ''6'', 6), (CHR ''7'', 7), (CHR ''8'', 8), (CHR ''9'', 9),
      (CHR ''a'', 10), (CHR ''b'', 11), (CHR ''c'', 12), (CHR ''d'', 13), (CHR ''e'', 14),
      (CHR ''f'', 15), (CHR ''A'', 10), (CHR ''B'', 11), (CHR ''C'', 12), (CHR ''D'', 13),
      (CHR ''E'', 14), (CHR ''F'', 15)]"

definition is_hex :: "char \<Rightarrow> bool" where
  "is_hex c = (map_of hex_table c \<noteq> None)"

definition hex_digit :: "char \<Rightarrow> nat" where
  "hex_digit c = (case map_of hex_table c of Some n \<Rightarrow> n | None \<Rightarrow> 0)"

definition hex_value :: "string \<Rightarrow> nat" where
  "hex_value ds = foldl (\<lambda>n c. n * 16 + hex_digit c) 0 ds"

definition is_0x_hex :: "string \<Rightarrow> bool" where
  "is_0x_hex s = (take 2 s = ''0x'' \<and> drop 2 s \<noteq> [] \<and> list_all is_hex (drop 2 s))"

text \<open>A string without its sign, if it starts with one.\<close>

definition strip_sign :: "string \<Rightarrow> string" where
  "strip_sign s =
     (case s of [] \<Rightarrow> [] | c # cs \<Rightarrow> if c = CHR ''+'' \<or> c = CHR ''-'' then cs else s)"

subsection \<open>Decimal strings and time stamps\<close>






text \<open>An entry that holds time stamps already, to decode a reply into.\<close>

definition stale_entry :: udpLog where
  "stale_entry = zero_udpLog\<lparr>udpLog.Start := 11, udpLog.End := 12\<rparr>"

subsection \<open>History slots\<close>

text \<open>
  The command of slot \<open>i\<close>, the outcome of the exchange that \<^verbatim>\<open>History\<close> makes for
  a command (into a fresh \<^verbatim>\<open>var l udpLog\<close>), and the outcome for slot \<open>i\<close>.
\<close>

definition report_cmd :: "int \<Rightarrow> string" where
  "report_cmd i = ''report '' @ fmt_d i"

definition exchange_of :: "udp \<Rightarrow> string \<Rightarrow> udpLog \<times> error option" where
  "exchange_of u cmd = udp_msg u cmd Decode_udpLog zero_udpLog"

definition slot :: "udp \<Rightarrow> int \<Rightarrow> udpLog \<times> error option" where
  "slot u i = exchange_of u (report_cmd i)"

text \<open>
  The invariant of the accumulated list: positive sequence numbers, no two neighbours
  with the same one.
\<close>

definition hist_ok :: "Log list \<Rightarrow> bool" where
  "hist_ok hist =
     (list_all (\<lambda>l. 0 < Log.Session l) hist \<and> distinct_adj (map Log.Session hist))"

text \<open>
  The specification's reading of the scan, on the decoded entries in slot order: an
  entry is accepted when its sequence number is not zero and differs from the sequence
  number of the entry accepted last before it (\<open>prev\<close>, \<open>None\<close> when nothing was
  accepted yet). Nothing is compared with entries accepted earlier than the last one.
\<close>

fun accepted_from :: "int option \<Rightarrow> udpLog list \<Rightarrow> Log list" where
  "accepted_from prev [] = []"
| "accepted_from prev (l # ls) =
     (if udpLog.Session l \<noteq> 0 \<and> Some (udpLog.Session l) \<noteq> prev
      then Log_of l # accepted_from (Some (udpLog.Session l)) ls
      else accepted_from prev ls)"

definition last_Session :: "Log list \<Rightarrow> int option" where
  "last_Session hist = (if hist = [] then None else Some (Log.Session (last hist)))"

subsection \<open>Wallboxes to run the client against\<close>

text \<open>
  A wallbox that answers the listed commands as listed and every other command with
  \<open>other\<close>; a slot reply that carries just a sequence number; an entry that holds
  just a sequence number.
\<close>

definition wallbox :: "(string \<times> exchange) list \<Rightarrow> exchange \<Rightarrow> udp" where
  "wallbox answers other cmd = (case map_of answers cmd of Some x \<Rightarrow> x | None \<Rightarrow> other)"

definition session_reply :: "string \<Rightarrow> exchange" where
  "session_reply s = Replies (JObject [(''Session ID'', JNumber s)])"

definition entry :: "int \<Rightarrow> udpLog" where
  "entry n = zero_udpLog\<lparr>udpLog.Session := n\<rparr>"

text \<open>
  Slots 100 to 106 carry the sequence numbers 5, 5, 6, 0, 7, -1, 8; nothing else
  answers.
\<close>

definition wallbox_seven :: udp where
  "wallbox_seven =
     wallbox [(''report 100'', session_reply ''5''), (''report 101'', session_reply ''5''),
              (''report 102'', session_reply ''6''), (''report 103'', session_reply ''0''),
              (''report 104'', session_reply ''7''), (''report 105'', session_reply ''-1''),
              (''report 106'', session_reply ''8'')] ReadFails"

text \<open>
  Slots 100 and 101 carry sessions 5 and 6, the reply of slot 102 has a string where
  the sequence number should be, slot 103 carries session 8.
\<close>

definition wallbox_broken :: udp where
  "wallbox_broken =
     wallbox [(''report 100'', session_reply ''5''), (''report 101'', session_reply ''6''),
              (''report 102'', Replies (JObject [(''Session ID'', JString ''7'')])),
              (''report 103'', session_reply ''8'')] ReadFails"

text \<open>
  Slots 100, 101, 102 carry the sequence numbers 5, 6, 5; every other slot is empty
  (sequence number 0).
\<close>

definition wallbox_repeat :: udp where
  "wallbox_repeat =
     wallbox [(''report 100'', session_reply ''5''), (''report 101'', session_reply ''6''),
              (''report 102'', session_reply ''5'')] (session_reply ''0'')"

subsection \<open>Values that do not fit a field\<close>







section \<open>Decoding the DIP switch register\<close>

lemma digit_F: "digit CHR ''F'' = Some 15"
  by (simp add: digit_def lower_def)

lemma digit_f: "digit CHR ''f'' = Some 15"
  by (simp add: digit_def lower_def)

lemma digit_0: "digit CHR ''0'' = Some 0"
  by (simp add: digit_def lower_def)

lemma ParseInt_FF: "ParseInt ''FF'' 16 16 = (255, None)"
  by (simp add: ParseInt_def ParseUint_def maxUint64_def digit_F)

lemma ParseInt_ff: "ParseInt ''ff'' 16 16 = (255, None)"
  by (simp add: ParseInt_def ParseUint_def maxUint64_def digit_f)

lemma ParseInt_00ff: "ParseInt ''00ff'' 16 16 = (255, None)"
  by (simp add: ParseInt_def ParseUint_def maxUint64_def digit_f digit_0)

text \<open>
  C7. Decoding each of the JSON strings \<^verbatim>\<open>"0xFF"\<close>, \<^verbatim>\<open>"0xff"\<close> and
  \<^verbatim>\<open>"0x00ff"\<close> succeeds (no error) and stores the same register value 255, whatever
  the register held before: the hex digits are read without regard to case and leading
  zeros do not change the value.
\<close>

theorem DIPs_UnmarshalJSON_0xFF:
  "DIPs_UnmarshalJSON d (JString ''0xFF'') = (255, None) \<and>
   DIPs_UnmarshalJSON d (JString ''0xff'') = (255, None) \<and>
   DIPs_UnmarshalJSON d (JString ''0x00ff'') = (255, None)"
  by (simp add: DIPs_UnmarshalJSON_def TrimPrefix_def HasPrefix_def
      ParseInt_FF ParseInt_ff ParseInt_00ff)


subsection \<open>The digits of strconv and the hex digits\<close>

lemma is_hex_cases:
  "is_hex c \<longleftrightarrow> c \<in> set ''0123456789abcdefABCDEF''"
  by (simp add: is_hex_def hex_table_def)

lemma digit_hex: "is_hex c \<Longrightarrow> digit c = Some (hex_digit c) \<and> hex_digit c < 16"
  unfolding is_hex_cases
  by (auto simp add: hex_digit_def hex_table_def digit_def lower_def)

lemma lower_eq: "lower b = b + of_bool (\<not> bit b 5) * 32"
proof -
  have "lower b = set_bit 5 b" by (simp add: lower_def set_bit_eq_or)
  then show ?thesis by (simp add: set_bit_eq)
qed

lemma lower_range: "97 \<le> lower b \<Longrightarrow> lower b \<le> 102 \<Longrightarrow> (65 \<le> b \<and> b \<le> 70) \<or> (97 \<le> b \<and> b \<le> 102)"
  by (cases "bit b 5") (simp_all add: lower_eq)

lemma of_char_is_hex:
  assumes "(48 \<le> (of_char c :: nat) \<and> (of_char c :: nat) \<le> 57) \<or>
           (65 \<le> (of_char c :: nat) \<and> (of_char c :: nat) \<le> 70) \<or>
           (97 \<le> (of_char c :: nat) \<and> (of_char c :: nat) \<le> 102)"
  shows "is_hex c"
proof -
  from assms have "(of_char c :: nat) \<in> set [48, 49, 50, 51, 52, 53, 54, 55, 56, 57,
      65, 66, 67, 68, 69, 70, 97, 98, 99, 100, 101, 102]"
    by (simp; arith)
  also have "[48, 49, 50, 51, 52, 53, 54, 55, 56, 57,
      65, 66, 67, 68, 69, 70, 97, 98, 99, 100, 101, 102] = map of_char ''0123456789ABCDEFabcdef''"
    by simp
  finally have "c \<in> set ''0123456789ABCDEFabcdef''"
    by (simp only: set_map inj_image_mem_iff[OF inj_of_char])
  then show ?thesis unfolding is_hex_cases by auto
qed

lemma digit_not_hex:
  assumes "\<not> is_hex c"
  shows "digit c = None \<or> (\<exists>d. digit c = Some d \<and> 16 \<le> d)"
proof (cases "digit c")
  case None
  then show ?thesis by simp
next
  case (Some d)
  have "16 \<le> d"
  proof (rule ccontr)
    assume "\<not> 16 \<le> d"
    with Some have "(48 \<le> (of_char c :: nat) \<and> (of_char c :: nat) \<le> 57) \<or>
        (97 \<le> lower (of_char c) \<and> lower (of_char c) \<le> 102)"
      by (auto simp add: digit_def Let_def split: if_splits)
    with lower_range[of "of_char c"] of_char_is_hex[of c] assms show False by blast
  qed
  with Some show ?thesis by simp
qed


subsection \<open>The loop of ParseUint on digits and on other bytes\<close>

lemma foldl_digits_ge: "n \<le> foldl (\<lambda>n c. n * Suc b + dv c) n cs"
proof (induction cs arbitrary: n)
  case Nil
  show ?case by simp
next
  case (Cons c cs)
  have "n \<le> n * Suc b + dv c" by simp
  also have "\<dots> \<le> foldl (\<lambda>n c. n * Suc b + dv c) (n * Suc b + dv c) cs" by (rule Cons.IH)
  finally show ?case by simp
qed

lemma ParseUint_loop_value:
  assumes "list_all (\<lambda>c. digit c = Some (dv c) \<and> dv c < base) cs"
      and "foldl (\<lambda>n c. n * base + dv c) n cs \<le> maxVal"
      and "maxVal \<le> maxUint64" and "0 < base"
  shows "ParseUint_loop base (maxUint64 div base + 1) maxVal n cs =
           (foldl (\<lambda>n c. n * base + dv c) n cs, None)"
  using assms(1,2)
proof (induction cs arbitrary: n)
  case Nil
  show ?case by simp
next
  case (Cons c cs)
  let ?m = "n * base + dv c"
  from Cons.prems have d: "digit c = Some (dv c)" "dv c < base"
    and rest: "list_all (\<lambda>c. digit c = Some (dv c) \<and> dv c < base) cs"
    and le: "foldl (\<lambda>n c. n * base + dv c) ?m cs \<le> maxVal"
    by simp_all
  obtain b where b: "base = Suc b" using assms(4) by (cases base) auto
  have "?m \<le> foldl (\<lambda>n c. n * base + dv c) ?m cs"
    unfolding b by (rule foldl_digits_ge)
  with le have m: "?m \<le> maxVal" by simp
  with assms(3) have m64: "?m \<le> maxUint64" by simp
  then have "n * base \<le> maxUint64" by simp
  then have "n \<le> maxUint64 div base"
    using assms(4) by (simp add: less_eq_div_iff_mult_less_eq)
  then have cut: "\<not> maxUint64 div base + 1 \<le> n" by simp
  have small: "n * base < 2 ^ 64" "?m < 2 ^ 64"
    using m64 by (simp_all add: maxUint64_def)
  show ?case
    using d cut small m Cons.IH[OF rest le] by (simp add: Let_def)
qed

lemma ParseUint_loop_bad:
  "\<exists>c\<in>set cs. digit c = None \<or> (\<exists>d. digit c = Some d \<and> base \<le> d) \<Longrightarrow>
   snd (ParseUint_loop base cutoff maxVal n cs) \<noteq> None"
  by (induction cs arbitrary: n) (auto simp add: Let_def split: option.splits)

lemma ParseUint_loop_error:
  "ParseUint_loop base cutoff maxVal n cs = (v, Some e) \<Longrightarrow>
   (e = ErrSyntax \<and> v = 0) \<or> (e = ErrRange \<and> v = maxVal)"
  by (induction cs arbitrary: n) (auto simp add: Let_def split: option.splits if_splits)

lemma list_all_digit_hex:
  "list_all is_hex ds \<Longrightarrow> list_all (\<lambda>c. digit c = Some (hex_digit c) \<and> hex_digit c < 16) ds"
  by (induction ds) (simp_all add: digit_hex)

lemma ParseUint_hex:
  assumes "ds \<noteq> []" "list_all is_hex ds" "hex_value ds < 2 ^ 16"
  shows "ParseUint ds 16 16 = (hex_value ds, None)"
proof -
  have "ParseUint_loop 16 (maxUint64 div 16 + 1) (2 ^ 16 - 1) 0 ds =
      (foldl (\<lambda>n c. n * 16 + hex_digit c) 0 ds, None)"
    using assms(3) list_all_digit_hex[OF assms(2)]
    by (intro ParseUint_loop_value) (simp_all add: hex_value_def maxUint64_def)
  with assms(1) show ?thesis by (simp add: ParseUint_def hex_value_def)
qed

lemma ParseUint_16_bad:
  assumes "body = [] \<or> \<not> list_all is_hex body"
  shows "\<exists>v e. ParseUint body 16 16 = (v, Some e) \<and> (e = ErrRange \<longrightarrow> v = 2 ^ 16 - 1)"
proof (cases "body = []")
  case True
  then show ?thesis by (simp add: ParseUint_def)
next
  case False
  with assms obtain c where "c \<in> set body" "\<not> is_hex c"
    by (auto simp add: list_all_iff)
  with digit_not_hex[of c]
  have "\<exists>c\<in>set body. digit c = None \<or> (\<exists>d. digit c = Some d \<and> 16 \<le> d)" by blast
  from ParseUint_loop_bad[OF this, of "maxUint64 div 16 + 1" "2 ^ 16 - 1" 0]
  obtain v e where r: "ParseUint_loop 16 (maxUint64 div 16 + 1) (2 ^ 16 - 1) 0 body = (v, Some e)"
    by (cases "ParseUint_loop 16 (maxUint64 div 16 + 1) (2 ^ 16 - 1) 0 body") auto
  from ParseUint_loop_error[OF r] r False show ?thesis
    by (auto simp add: ParseUint_def)
qed

lemma is_hex_not_sign: "is_hex c \<Longrightarrow> c \<noteq> CHR ''+'' \<and> c \<noteq> CHR ''-'' \<and> c \<noteq> CHR ''x''"
  unfolding is_hex_cases by auto

lemma ParseInt_hex:
  assumes "ds \<noteq> []" "list_all is_hex ds" "hex_value ds < 2 ^ 15"
  shows "ParseInt ds 16 16 = (int (hex_value ds), None)"
    and "ParseInt (CHR ''+'' # ds) 16 16 = (int (hex_value ds), None)"
    and "ParseInt (CHR ''-'' # ds) 16 16 = (- int (hex_value ds), None)"
proof -
  from assms(3) have "hex_value ds < 2 ^ 16" by simp
  note u = ParseUint_hex[OF assms(1,2) this]
  obtain c cs where ds: "ds = c # cs" using assms(1) by (cases ds) auto
  with assms(2) have "is_hex c" by simp
  then have c: "c \<noteq> CHR ''+''" "c \<noteq> CHR ''-''" using is_hex_not_sign by blast+
  show "ParseInt ds 16 16 = (int (hex_value ds), None)"
    using u assms(3) c by (simp add: ParseInt_def ds)
  show "ParseInt (CHR ''+'' # ds) 16 16 = (int (hex_value ds), None)"
    using u assms(3) by (simp add: ParseInt_def)
  show "ParseInt (CHR ''-'' # ds) 16 16 = (- int (hex_value ds), None)"
    using u assms(3) by (simp add: ParseInt_def)
qed

lemma ParseInt_16_bad:
  assumes "strip_sign s = [] \<or> \<not> list_all is_hex (strip_sign s)"
  shows "snd (ParseInt s 16 16) \<noteq> None"
proof (cases s)
  case Nil
  then show ?thesis by (simp add: ParseInt_def)
next
  case (Cons c cs)
  let ?body = "if c = CHR ''+'' \<or> c = CHR ''-'' then cs else c # cs"
  have "strip_sign s = ?body" by (simp add: strip_sign_def Cons)
  with assms have "?body = [] \<or> \<not> list_all is_hex ?body" by simp
  from ParseUint_16_bad[OF this]
  obtain v e where r: "ParseUint ?body 16 16 = (v, Some e)" "e = ErrRange \<longrightarrow> v = 2 ^ 16 - 1"
    by blast
  show ?thesis
    using r by (cases "e = ErrRange"; cases "c = CHR ''-''") (simp_all add: ParseInt_def Cons)
qed


lemma TrimPrefix_0x: "TrimPrefix (''0x'' @ t) ''0x'' = t"
  by (simp add: TrimPrefix_def HasPrefix_def)

lemma TrimPrefix_none:
  "t \<noteq> [] \<Longrightarrow> hd t \<noteq> CHR ''0'' \<Longrightarrow> TrimPrefix t ''0x'' = t"
  by (cases t) (auto simp add: TrimPrefix_def HasPrefix_def)

lemma TrimPrefix_hex:
  "list_all is_hex ds \<Longrightarrow> TrimPrefix ds ''0x'' = ds"
proof (cases ds)
  case Nil
  then show ?thesis by (simp add: TrimPrefix_def HasPrefix_def)
next
  case (Cons c cs)
  assume h: "list_all is_hex ds"
  show ?thesis
  proof (cases cs)
    case Nil
    with Cons show ?thesis by (simp add: TrimPrefix_def HasPrefix_def)
  next
    case (Cons c' cs')
    with h \<open>ds = c # cs\<close> have "is_hex c'" by simp
    then have "c' \<noteq> CHR ''x''" using is_hex_not_sign by blast
    with Cons \<open>ds = c # cs\<close> show ?thesis by (simp add: TrimPrefix_def HasPrefix_def)
  qed
qed

lemma DIPs_UnmarshalJSON_unchanged:
  "DIPs_UnmarshalJSON d j = (d', Some e) \<Longrightarrow> d' = d"
  by (auto simp add: DIPs_UnmarshalJSON_def split: prod.splits option.splits)

lemma DIPs_UnmarshalJSON_not_string:
  "\<forall>s. j \<noteq> JString s \<Longrightarrow> \<exists>e. DIPs_UnmarshalJSON d j = (d, Some e)"
  by (cases j) (simp_all add: DIPs_UnmarshalJSON_def TrimPrefix_def HasPrefix_def ParseInt_def)

lemma DIPs_UnmarshalJSON_bad_string:
  assumes "strip_sign (TrimPrefix s ''0x'') = [] \<or>
           \<not> list_all is_hex (strip_sign (TrimPrefix s ''0x''))"
  shows "\<exists>e. DIPs_UnmarshalJSON d (JString s) = (d, Some e)"
  using ParseInt_16_bad[OF assms]
  by (cases "ParseInt (TrimPrefix s ''0x'') 16 16") (auto simp add: DIPs_UnmarshalJSON_def)

lemma DIPs_UnmarshalJSON_hex:
  assumes "p = [] \<or> p = ''0x''" "ds \<noteq> []" "list_all is_hex ds" "hex_value ds < 2 ^ 15"
  shows "DIPs_UnmarshalJSON d (JString (p @ ds)) = (word_of_nat (hex_value ds), None)"
    and "DIPs_UnmarshalJSON d (JString (p @ CHR ''+'' # ds)) = (word_of_nat (hex_value ds), None)"
    and "DIPs_UnmarshalJSON d (JString (p @ CHR ''-'' # ds)) =
           (word_of_int (- int (hex_value ds)), None)"
  using assms(1) ParseInt_hex[OF assms(2,3,4)] TrimPrefix_hex[OF assms(3)]
    TrimPrefix_0x[of ds] TrimPrefix_0x[of "CHR ''+'' # ds"] TrimPrefix_0x[of "CHR ''-'' # ds"]
    TrimPrefix_none[of "CHR ''+'' # ds"] TrimPrefix_none[of "CHR ''-'' # ds"]
  by (auto simp add: DIPs_UnmarshalJSON_def)

subsection \<open>Which values decode\<close>

text \<open>
  C4 (as amended). Decoding succeeds on every JSON string made of an optional prefix
  \<^verbatim>\<open>0x\<close>, an optional sign and one or more hex digits (upper or lower case, leading
  zeros allowed) whose value is below \<open>0x8000\<close>; it stores that value, negated
  modulo \<open>2 ^ 16\<close> after a minus sign. Decoding fails, and leaves the register as it
  was, on every string whose part after the optional prefix and sign is empty or holds
  a byte that is not a hex digit, and on every JSON value that is not a string; and
  whenever decoding fails the register is unchanged. (Nothing is said here about hex
  values from \<open>0x8000\<close> on.)
\<close>

theorem DIPs_UnmarshalJSON_forms:
  "((p = [] \<or> p = ''0x'') \<and> ds \<noteq> [] \<and> list_all is_hex ds \<and> hex_value ds < 2 ^ 15 \<longrightarrow>
      DIPs_UnmarshalJSON d (JString (p @ ds)) = (word_of_nat (hex_value ds), None) \<and>
      DIPs_UnmarshalJSON d (JString (p @ CHR ''+'' # ds)) = (word_of_nat (hex_value ds), None) \<and>
      DIPs_UnmarshalJSON d (JString (p @ CHR ''-'' # ds)) =
        (word_of_int (- int (hex_value ds)), None)) \<and>
   (strip_sign (TrimPrefix s ''0x'') = [] \<or>
    \<not> list_all is_hex (strip_sign (TrimPrefix s ''0x'')) \<longrightarrow>
      (\<exists>e. DIPs_UnmarshalJSON d (JString s) = (d, Some e))) \<and>
   ((\<forall>t. j \<noteq> JString t) \<longrightarrow> (\<exists>e. DIPs_UnmarshalJSON d j = (d, Some e))) \<and>
   (snd (DIPs_UnmarshalJSON d j) \<noteq> None \<longrightarrow> fst (DIPs_UnmarshalJSON d j) = d)"
proof (intro conjI impI)
  assume a: "(p = [] \<or> p = ''0x'') \<and> ds \<noteq> [] \<and> list_all is_hex ds \<and> hex_value ds < 2 ^ 15"
  then have a': "p = [] \<or> p = ''0x''" "ds \<noteq> []" "list_all is_hex ds" "hex_value ds < 2 ^ 15"
    by simp_all
  show "DIPs_UnmarshalJSON d (JString (p @ ds)) = (word_of_nat (hex_value ds), None)"
    by (rule DIPs_UnmarshalJSON_hex(1)[OF a'])
  show "DIPs_UnmarshalJSON d (JString (p @ CHR ''+'' # ds)) = (word_of_nat (hex_value ds), None)"
    by (rule DIPs_UnmarshalJSON_hex(2)[OF a'])
  show "DIPs_UnmarshalJSON d (JString (p @ CHR ''-'' # ds)) =
        (word_of_int (- int (hex_value ds)), None)"
    by (rule DIPs_UnmarshalJSON_hex(3)[OF a'])
next
  assume "strip_sign (TrimPrefix s ''0x'') = [] \<or>
    \<not> list_all is_hex (strip_sign (TrimPrefix s ''0x''))"
  then show "\<exists>e. DIPs_UnmarshalJSON d (JString s) = (d, Some e)"
    by (rule DIPs_UnmarshalJSON_bad_string)
next
  assume "\<forall>t. j \<noteq> JString t"
  then show "\<exists>e. DIPs_UnmarshalJSON d j = (d, Some e)"
    by (rule DIPs_UnmarshalJSON_not_string)
next
  assume "snd (DIPs_UnmarshalJSON d j) \<noteq> None"
  then show "fst (DIPs_UnmarshalJSON d j) = d"
    using DIPs_UnmarshalJSON_unchanged[of d j] by (cases "DIPs_UnmarshalJSON d j") auto
qed

theorem DIPs_UnmarshalJSON_forms_witness:
  "DIPs_UnmarshalJSON 5 (JString ''0x7fFF'') = (32767, None) \<and>
   DIPs_UnmarshalJSON 5 (JString ''0x+7fFF'') = (32767, None) \<and>
   DIPs_UnmarshalJSON 5 (JString ''0x-7fFF'') = (32769, None) \<and>
   (\<exists>e. DIPs_UnmarshalJSON 5 (JString ''0xZZ'') = (5, Some e)) \<and>
   (\<exists>e. DIPs_UnmarshalJSON 5 (JNumber ''255'') = (5, Some e)) \<and>
   fst (DIPs_UnmarshalJSON 5 (JNumber ''255'')) = 5"
proof -
  have v: "hex_value ''7fFF'' = 32767"
    by (simp add: hex_value_def hex_digit_def hex_table_def)
  have h: "list_all is_hex ''7fFF''"
    by (simp add: is_hex_def hex_table_def)
  have b: "\<not> list_all is_hex (strip_sign (TrimPrefix ''0xZZ'' ''0x''))"
    by (simp add: strip_sign_def TrimPrefix_def HasPrefix_def is_hex_def hex_table_def)
  have n: "snd (DIPs_UnmarshalJSON 5 (JNumber ''255'')) \<noteq> None"
    by (simp add: DIPs_UnmarshalJSON_def)
  from DIPs_UnmarshalJSON_forms[of "''0x''" "''7fFF''" 5 "''0xZZ''" "JNumber ''255''"] v h b n
  show ?thesis by simp
qed

text \<open>
  C4 as stated fails: the string \<^verbatim>\<open>ff\<close> is not of the form \<^verbatim>\<open>0x<hex>\<close>, and the
  JSON string \<^verbatim>\<open>"ff"\<close> decodes without an error to 255.
\<close>

theorem DIPs_UnmarshalJSON_no_prefix:
  "\<not> is_0x_hex ''ff'' \<and> DIPs_UnmarshalJSON 0 (JString ''ff'') = (255, None)"
  by (simp add: is_0x_hex_def DIPs_UnmarshalJSON_def TrimPrefix_def HasPrefix_def ParseInt_ff)


subsection \<open>Formatting and decoding again\<close>

lemma DIPs_String_0x_32768: "DIPs_String_0x 32768 = ''0x8000''"
  by (simp add: DIPs_String_0x_def fmt_x.simps)

lemma DIPs_String_32768: "DIPs_String 32768 = ''1000000000000000''"
  by (simp add: DIPs_String_def fmt_b.simps)

lemma DIPs_String_2: "DIPs_String 2 = ''0000000000000010''"
proof -
  have "fmt_b 2 = ''10''" by (simp add: fmt_b.simps)
  moreover have "replicate 14 (CHR ''0'') = ''00000000000000''"
    by (simp add: numeral_eq_Suc)
  ultimately show ?thesis by (simp add: DIPs_String_def)
qed

lemma ParseInt_8000: "ParseInt ''8000'' 16 16 = (32767, Some ErrRange)"
  by (simp add: ParseInt_def ParseUint_def maxUint64_def digit_def lower_def)

lemma ParseInt_binary_32768: "ParseInt ''1000000000000000'' 16 16 = (32767, Some ErrRange)"
  by (simp add: ParseInt_def ParseUint_def maxUint64_def digit_def lower_def)

lemma ParseInt_binary_2: "ParseInt ''0000000000000010'' 16 16 = (16, None)"
  by (simp add: ParseInt_def ParseUint_def maxUint64_def digit_def lower_def)

text \<open>
  The digits that \<^verbatim>\<open>%x\<close> writes are hex digits with the value of the number, so the
  text of \<^verbatim>\<open>part_002\<close> is decoded back for the register values below \<open>0x8000\<close>,
  and is rejected for every register value from \<open>0x8000\<close> on.
\<close>

lemma hex_char:
  assumes "k < 16"
  shows "is_hex (''0123456789abcdef'' ! k)" and "hex_digit (''0123456789abcdef'' ! k) = k"
proof -
  from assms have k: "k = 0 \<or> k = 1 \<or> k = 2 \<or> k = 3 \<or> k = 4 \<or> k = 5 \<or> k = 6 \<or> k = 7 \<or>
      k = 8 \<or> k = 9 \<or> k = 10 \<or> k = 11 \<or> k = 12 \<or> k = 13 \<or> k = 14 \<or> k = 15" by arith
  from k show "is_hex (''0123456789abcdef'' ! k)"
    by (elim disjE) (simp_all add: is_hex_def hex_table_def)
  from k show "hex_digit (''0123456789abcdef'' ! k) = k"
    by (elim disjE) (simp_all add: hex_digit_def hex_table_def)
qed

lemma fmt_x_not_Nil: "fmt_x n \<noteq> []"
  by (subst fmt_x.simps) simp

lemma fmt_x_hex: "list_all is_hex (fmt_x n)"
proof (induction n rule: fmt_x.induct)
  case (1 n)
  show ?case
  proof (cases "n < 16")
    case True
    then show ?thesis by (subst fmt_x.simps) (simp add: hex_char(1))
  next
    case False
    have "n mod 16 < 16" by simp
    with False "1.IH" show ?thesis by (subst fmt_x.simps) (simp add: hex_char(1))
  qed
qed

lemma fmt_x_value: "hex_value (fmt_x n) = n"
proof (induction n rule: fmt_x.induct)
  case (1 n)
  show ?case
  proof (cases "n < 16")
    case True
    then show ?thesis by (subst fmt_x.simps) (simp add: hex_value_def hex_char(2))
  next
    case False
    have "n mod 16 < 16" by simp
    with False "1.IH" show ?thesis
      by (subst fmt_x.simps) (simp add: hex_value_def hex_char(2))
  qed
qed

lemma DIPs_String_0x_decoded_back:
  assumes "unat x < 2 ^ 15"
  shows "DIPs_UnmarshalJSON d (JString (DIPs_String_0x x)) = (x, None)"
  using DIPs_UnmarshalJSON_hex(1)[of "''0x''" "fmt_x (unat x)" d] assms
  by (simp add: DIPs_String_0x_def fmt_x_not_Nil fmt_x_hex fmt_x_value)

lemma DIPs_String_0x_rejected:
  assumes "2 ^ 15 \<le> unat x"
  shows "DIPs_UnmarshalJSON d (JString (DIPs_String_0x x)) = (d, Some ErrRange)"
proof -
  have "unat x < 2 ^ 16" using unsigned_less[of x] by simp
  then have u: "ParseUint (fmt_x (unat x)) 16 16 = (unat x, None)"
    using ParseUint_hex[of "fmt_x (unat x)"]
    by (simp add: fmt_x_not_Nil fmt_x_hex fmt_x_value)
  obtain c cs where cs: "fmt_x (unat x) = c # cs" using fmt_x_not_Nil[of "unat x"]
    by (cases "fmt_x (unat x)") auto
  with fmt_x_hex[of "unat x"] have "is_hex c" by simp
  then have c: "c \<noteq> CHR ''+''" "c \<noteq> CHR ''-''" using is_hex_not_sign by blast+
  have "ParseInt (fmt_x (unat x)) 16 16 = (32767, Some ErrRange)"
    using u assms c by (simp add: ParseInt_def cs)
  then show ?thesis
    by (simp add: DIPs_UnmarshalJSON_def DIPs_String_0x_def TrimPrefix_0x[simplified])
qed

text \<open>
  C2, at the register value \<open>0x8000\<close> (the highest bit, \<^verbatim>\<open>dip1 >> 1\<close>). The text that
  \<^verbatim>\<open>String\<close> of \<^verbatim>\<open>part_002\<close> produces is \<^verbatim>\<open>0x8000\<close>, and decoding it fails with
  a range error, because \<^verbatim>\<open>strconv.ParseInt(..., 16, 16)\<close> accepts the signed 16-bit
  range only. The text that \<^verbatim>\<open>String\<close> of \<^verbatim>\<open>keba.go\<close> produces holds the 16 binary
  digits, which the decoder reads as hex digits: for \<open>0x8000\<close> that is out of range as
  well, and for the register value 2 it decodes to 16.
\<close>

theorem DIPs_String_not_decoded_back:
  "DIPs_String_0x 32768 = ''0x8000'' \<and>
   DIPs_UnmarshalJSON d (JString (DIPs_String_0x 32768)) = (d, Some ErrRange) \<and>
   DIPs_String 32768 = ''1000000000000000'' \<and>
   DIPs_UnmarshalJSON d (JString (DIPs_String 32768)) = (d, Some ErrRange) \<and>
   DIPs_String 2 = ''0000000000000010'' \<and>
   DIPs_UnmarshalJSON d (JString (DIPs_String 2)) = (16, None)"
  by (simp add: DIPs_String_0x_32768 DIPs_String_32768 DIPs_String_2 DIPs_UnmarshalJSON_def
      TrimPrefix_def HasPrefix_def ParseInt_8000 ParseInt_binary_32768 ParseInt_binary_2)

section \<open>The history loop\<close>

lemma Log_of_Session [simp]: "Log.Session (Log_of l) = udpLog.Session l"
  by (simp add: Log_of_def)

text \<open>One iteration of the loop, by the outcome of its exchange.\<close>

lemma History_loop_end:
  "\<not> i \<le> 130 \<Longrightarrow> History_loop u i hist sent = (hist, None, sent)"
  by (simp add: History_loop.simps)

lemma History_loop_err:
  "i \<le> 130 \<Longrightarrow> slot u i = (l, Some e) \<Longrightarrow>
   History_loop u i hist sent = ([], Some e, sent @ [report_cmd i])"
  by (simp add: History_loop.simps[of u i] slot_def exchange_of_def report_cmd_def)

lemma History_loop_neg:
  "i \<le> 130 \<Longrightarrow> slot u i = (l, None) \<Longrightarrow> udpLog.Session l < 0 \<Longrightarrow>
   History_loop u i hist sent = (hist, None, sent @ [report_cmd i])"
  by (simp add: History_loop.simps[of u i] slot_def exchange_of_def report_cmd_def)

lemma History_loop_zero:
  "i \<le> 130 \<Longrightarrow> slot u i = (l, None) \<Longrightarrow> udpLog.Session l = 0 \<Longrightarrow>
   History_loop u i hist sent = History_loop u (i + 1) hist (sent @ [report_cmd i])"
  by (simp add: History_loop.simps[of u i] slot_def exchange_of_def report_cmd_def)

lemma History_loop_dup:
  "i \<le> 130 \<Longrightarrow> slot u i = (l, None) \<Longrightarrow> 0 < udpLog.Session l \<Longrightarrow>
   hist \<noteq> [] \<Longrightarrow> udpLog.Session l = Log.Session (last hist) \<Longrightarrow>
   History_loop u i hist sent = History_loop u (i + 1) hist (sent @ [report_cmd i])"
  by (simp add: History_loop.simps[of u i] slot_def exchange_of_def report_cmd_def)

lemma History_loop_append:
  "i \<le> 130 \<Longrightarrow> slot u i = (l, None) \<Longrightarrow> 0 < udpLog.Session l \<Longrightarrow>
   hist = [] \<or> udpLog.Session l \<noteq> Log.Session (last hist) \<Longrightarrow>
   History_loop u i hist sent =
     History_loop u (i + 1) (hist @ [Log_of l]) (sent @ [report_cmd i])"
  by (auto simp add: History_loop.simps[of u i] slot_def exchange_of_def report_cmd_def)

lemma History_loop_cases:
  assumes "i \<le> 130"
  obtains (err) l e where "slot u i = (l, Some e)"
  | (neg) l where "slot u i = (l, None)" "udpLog.Session l < 0"
  | (zero) l where "slot u i = (l, None)" "udpLog.Session l = 0"
  | (dup) l where "slot u i = (l, None)" "0 < udpLog.Session l" "hist \<noteq> []"
      "udpLog.Session l = Log.Session (last hist)"
  | (app) l where "slot u i = (l, None)" "0 < udpLog.Session l"
      "hist = [] \<or> udpLog.Session l \<noteq> Log.Session (last hist)"
proof (cases "slot u i")
  case (Pair l eo)
  then show ?thesis
    by (cases eo; cases "udpLog.Session l < 0"; cases "udpLog.Session l = 0")
       (use that in force)+
qed

subsection \<open>The invariant of the accumulated list\<close>

lemma hist_ok_snoc:
  "hist_ok hist \<Longrightarrow> 0 < udpLog.Session l \<Longrightarrow>
   hist = [] \<or> udpLog.Session l \<noteq> Log.Session (last hist) \<Longrightarrow>
   hist_ok (hist @ [Log_of l])"
  by (auto simp: hist_ok_def distinct_adj_append_iff last_map)

lemma History_loop_ok:
  "hist_ok hist \<Longrightarrow> History_loop u i hist sent = (h, None, s) \<Longrightarrow> hist_ok h"
proof (induction "nat (131 - i)" arbitrary: i hist sent)
  case 0
  then show ?case by (simp add: History_loop_end)
next
  case (Suc n)
  then have le: "i \<le> 130" and n: "n = nat (131 - (i + 1))" by auto
  from le show ?case
  proof (cases rule: History_loop_cases[where i=i and u=u and hist=hist])
    case (err l e)
    with le Suc.prems show ?thesis by (simp add: History_loop_err)
  next
    case (neg l)
    with le Suc.prems show ?thesis by (simp add: History_loop_neg)
  next
    case (zero l)
    with le Suc.prems Suc.hyps(1)[OF n] show ?thesis by (simp add: History_loop_zero)
  next
    case (dup l)
    with le Suc.prems Suc.hyps(1)[OF n] show ?thesis by (simp add: History_loop_dup)
  next
    case (app l)
    with le Suc.prems Suc.hyps(1)[OF n, of "hist @ [Log_of l]"] hist_ok_snoc[of hist l]
    show ?thesis by (simp add: History_loop_append)
  qed
qed

lemma History_loop_length:
  "History_loop u i hist sent = (h, eo, s) \<Longrightarrow> length h \<le> length hist + nat (131 - i)"
proof (induction "nat (131 - i)" arbitrary: i hist sent)
  case 0
  then show ?case by (simp add: History_loop_end)
next
  case (Suc n)
  then have le: "i \<le> 130" and n: "n = nat (131 - (i + 1))" by auto
  have step: "nat (131 - i) = Suc (nat (131 - (i + 1)))" using le by simp
  from le show ?case
  proof (cases rule: History_loop_cases[where i=i and u=u and hist=hist])
    case (err l e)
    with le Suc.prems show ?thesis by (simp add: History_loop_err)
  next
    case (neg l)
    with le Suc.prems show ?thesis by (simp add: History_loop_neg)
  next
    case (zero l)
    with le Suc.prems have "History_loop u (i + 1) hist (sent @ [report_cmd i]) = (h, eo, s)"
      by (simp add: History_loop_zero)
    from Suc.hyps(1)[OF n this] step show ?thesis by simp
  next
    case (dup l)
    with le Suc.prems have "History_loop u (i + 1) hist (sent @ [report_cmd i]) = (h, eo, s)"
      by (simp add: History_loop_dup)
    from Suc.hyps(1)[OF n this] step show ?thesis by simp
  next
    case (app l)
    with le Suc.prems
    have "History_loop u (i + 1) (hist @ [Log_of l]) (sent @ [report_cmd i]) = (h, eo, s)"
      by (simp add: History_loop_append)
    from Suc.hyps(1)[OF n this] step show ?thesis by simp
  qed
qed

subsection \<open>A failed exchange\<close>

lemma slot_exchange: "slot u i = exchange_of u (report_cmd i)"
  by (simp add: slot_def)

text \<open>
  As long as every command sent so far was answered and decoded, a sent command whose
  exchange fails is the last one, and the loop ends with its error and an empty list.
\<close>

lemma History_loop_fails:
  "History_loop u i hist sent = (h, eo, s) \<Longrightarrow>
   list_all (\<lambda>c. snd (exchange_of u c) = None) sent \<Longrightarrow>
   c \<in> set s \<Longrightarrow> snd (exchange_of u c) = Some e \<Longrightarrow> h = [] \<and> eo = Some e"
proof (induction "nat (131 - i)" arbitrary: i hist sent)
  case 0
  then show ?case by (auto simp add: History_loop_end list_all_iff)
next
  case (Suc n)
  then have le: "i \<le> 130" and n: "n = nat (131 - (i + 1))" by auto
  from le show ?case
  proof (cases rule: History_loop_cases[where i=i and u=u and hist=hist])
    case (err l e')
    with le Suc.prems show ?thesis
      by (auto simp add: History_loop_err list_all_iff slot_exchange)
  next
    case (neg l)
    with le Suc.prems show ?thesis
      by (auto simp add: History_loop_neg list_all_iff slot_exchange)
  next
    case (zero l)
    then have "list_all (\<lambda>c. snd (exchange_of u c) = None) (sent @ [report_cmd i])"
      using Suc.prems(2) by (simp add: slot_exchange)
    with le zero Suc.prems Suc.hyps(1)[OF n, of hist "sent @ [report_cmd i]"] show ?thesis
      by (simp add: History_loop_zero)
  next
    case (dup l)
    then have "list_all (\<lambda>c. snd (exchange_of u c) = None) (sent @ [report_cmd i])"
      using Suc.prems(2) by (simp add: slot_exchange)
    with le dup Suc.prems Suc.hyps(1)[OF n, of hist "sent @ [report_cmd i]"] show ?thesis
      by (simp add: History_loop_dup)
  next
    case (app l)
    then have "list_all (\<lambda>c. snd (exchange_of u c) = None) (sent @ [report_cmd i])"
      using Suc.prems(2) by (simp add: slot_exchange)
    with le app Suc.prems
      Suc.hyps(1)[OF n, of "hist @ [Log_of l]" "sent @ [report_cmd i]"] show ?thesis
      by (simp add: History_loop_append)
  qed
qed

subsection \<open>A scan without a negative sequence number\<close>

lemma History_loop_full:
  "i \<le> 131 \<Longrightarrow>
   \<forall>k\<in>{i..130}. snd (slot u k) = None \<and> 0 \<le> udpLog.Session (fst (slot u k)) \<Longrightarrow>
   History_loop u i hist sent =
     (hist @ accepted_from (last_Session hist) (map (\<lambda>k. fst (slot u k)) [i..130]), None,
      sent @ map report_cmd [i..130])"
proof (induction "nat (131 - i)" arbitrary: i hist sent)
  case 0
  then have "i = 131" by simp
  then show ?case by (simp add: History_loop_end)
next
  case (Suc n)
  then have le: "i \<le> 130" and n: "n = nat (131 - (i + 1))" and le': "i + 1 \<le> 131"
    by auto
  have ok: "snd (slot u i) = None" "0 \<le> udpLog.Session (fst (slot u i))"
    using Suc.prems(2) le by auto
  have rest:
    "\<forall>k\<in>{i + 1..130}. snd (slot u k) = None \<and> 0 \<le> udpLog.Session (fst (slot u k))"
    using Suc.prems(2) by auto
  have up: "[i..130] = i # [i + 1..130]" using le by (simp add: upto_rec1)
  note IH = Suc.hyps(1)[OF n le' rest]
  from le show ?case
  proof (cases rule: History_loop_cases[where i=i and u=u and hist=hist])
    case (err l e)
    with ok show ?thesis by simp
  next
    case (neg l)
    with ok show ?thesis by simp
  next
    case (zero l)
    with le IH[of hist "sent @ [report_cmd i]"] show ?thesis
      by (simp add: History_loop_zero up)
  next
    case (dup l)
    with le IH[of hist "sent @ [report_cmd i]"] show ?thesis
      by (simp add: History_loop_dup up last_Session_def)
  next
    case (app l)
    with le IH[of "hist @ [Log_of l]" "sent @ [report_cmd i]"] show ?thesis
      by (auto simp add: History_loop_append up last_Session_def)
  qed
qed

subsection \<open>Running the client against the wallboxes\<close>

lemma ParseInt_dec_5: "ParseInt ''5'' 10 64 = (5, None)"
  by (simp add: ParseInt_def ParseUint_def maxUint64_def digit_def)

lemma ParseInt_dec_6: "ParseInt ''6'' 10 64 = (6, None)"
  by (simp add: ParseInt_def ParseUint_def maxUint64_def digit_def)

lemma ParseInt_dec_7: "ParseInt ''7'' 10 64 = (7, None)"
  by (simp add: ParseInt_def ParseUint_def maxUint64_def digit_def)

lemma ParseInt_dec_8: "ParseInt ''8'' 10 64 = (8, None)"
  by (simp add: ParseInt_def ParseUint_def maxUint64_def digit_def)

lemma ParseInt_dec_0: "ParseInt ''0'' 10 64 = (0, None)"
  by (simp add: ParseInt_def ParseUint_def maxUint64_def digit_def)

lemma ParseInt_dec_minus_1: "ParseInt ''-1'' 10 64 = (- 1, None)"
  by (simp add: ParseInt_def ParseUint_def maxUint64_def digit_def)

lemma Number_Int64_empty: "Number_Int64 [] = (0, Some ErrSyntax)"
  by (simp add: Number_Int64_def ParseInt_def)

lemma field_of_Session_ID:
  "field_of udpLog_fields ''Session ID'' = Some ''Session ID''"
  "field_of times_fields ''Session ID'' = None"
  by (simp_all add: field_of_def udpLog_fields_def times_fields_def equalFold_def
      fold_byte_def)

lemma Decode_session_number:
  "ParseInt s 10 64 = (n, None) \<Longrightarrow>
   Decode_udpLog (JObject [(''Session ID'', JNumber s)]) zero_udpLog = (entry n, None)"
  by (simp add: Decode_udpLog_def udpLog_UnmarshalJSON_def udpLog_store_def times_store_def
      field_of_Session_ID zero_times_def Number_Int64_empty entry_def)

lemma Decode_session_string:
  "Decode_udpLog (JObject [(''Session ID'', JString s)]) zero_udpLog =
     (zero_udpLog, Some (UnmarshalTypeError ''string''))"
  by (simp add: Decode_udpLog_def udpLog_UnmarshalJSON_def udpLog_store_def
      field_of_Session_ID)

lemma exchange_session_reply:
  "u cmd = session_reply s \<Longrightarrow> ParseInt s 10 64 = (n, None) \<Longrightarrow>
   exchange_of u cmd = (entry n, None)"
  by (simp add: exchange_of_def udp_msg_def session_reply_def Decode_session_number)

lemma report_cmd_values:
  "report_cmd 100 = ''report 100''" "report_cmd 101 = ''report 101''"
  "report_cmd 102 = ''report 102''" "report_cmd 103 = ''report 103''"
  "report_cmd 104 = ''report 104''" "report_cmd 105 = ''report 105''"
  "report_cmd 106 = ''report 106''"
  by (simp_all add: report_cmd_def fmt_d_def fmt_nat.simps)

lemma Session_entry [simp]: "udpLog.Session (entry n) = n"
  by (simp add: entry_def)

text \<open>The loop over six slots with the sequence numbers 5, 5, 6, 0, 7 and -1.\<close>

lemma History_loop_six:
  assumes "slot u 100 = (l0, None)" "udpLog.Session l0 = 5"
      and "slot u 101 = (l1, None)" "udpLog.Session l1 = 5"
      and "slot u 102 = (l2, None)" "udpLog.Session l2 = 6"
      and "slot u 103 = (l3, None)" "udpLog.Session l3 = 0"
      and "slot u 104 = (l4, None)" "udpLog.Session l4 = 7"
      and "slot u 105 = (l5, None)" "udpLog.Session l5 = - 1"
  shows "History_loop u 100 [] [] =
     ([Log_of l0, Log_of l2, Log_of l4], None,
      [''report 100'', ''report 101'', ''report 102'', ''report 103'', ''report 104'',
       ''report 105''])"
proof -
  have "History_loop u 100 [] [] = History_loop u 101 [Log_of l0] [report_cmd 100]"
    using History_loop_append[of 100 u l0 "[]" "[]"] assms by simp
  also have "\<dots> = History_loop u 102 [Log_of l0] [report_cmd 100, report_cmd 101]"
    using History_loop_dup[of 101 u l1 "[Log_of l0]"] assms by simp
  also have "\<dots> = History_loop u 103 [Log_of l0, Log_of l2]
      [report_cmd 100, report_cmd 101, report_cmd 102]"
    using History_loop_append[of 102 u l2 "[Log_of l0]"] assms by simp
  also have "\<dots> = History_loop u 104 [Log_of l0, Log_of l2]
      [report_cmd 100, report_cmd 101, report_cmd 102, report_cmd 103]"
    using History_loop_zero[of 103 u l3] assms by simp
  also have "\<dots> = History_loop u 105 [Log_of l0, Log_of l2, Log_of l4]
      [report_cmd 100, report_cmd 101, report_cmd 102, report_cmd 103, report_cmd 104]"
    using History_loop_append[of 104 u l4 "[Log_of l0, Log_of l2]"] assms by simp
  also have "\<dots> = ([Log_of l0, Log_of l2, Log_of l4], None,
      [report_cmd 100, report_cmd 101, report_cmd 102, report_cmd 103, report_cmd 104,
       report_cmd 105])"
    using History_loop_neg[of 105 u l5] assms by simp
  finally show ?thesis by (simp add: report_cmd_values)
qed

lemma slot_wallbox_seven:
  "slot wallbox_seven 100 = (entry 5, None)" "slot wallbox_seven 101 = (entry 5, None)"
  "slot wallbox_seven 102 = (entry 6, None)" "slot wallbox_seven 103 = (entry 0, None)"
  "slot wallbox_seven 104 = (entry 7, None)" "slot wallbox_seven 105 = (entry (- 1), None)"
  "slot wallbox_seven 106 = (entry 8, None)"
  by (simp_all add: slot_def report_cmd_values wallbox_seven_def wallbox_def
      exchange_session_reply[where s = "''5''"] exchange_session_reply[where s = "''6''"]
      exchange_session_reply[where s = "''7''"] exchange_session_reply[where s = "''8''"]
      exchange_session_reply[where s = "''0''"] exchange_session_reply[where s = "''-1''"]
      ParseInt_dec_5 ParseInt_dec_6 ParseInt_dec_7 ParseInt_dec_8 ParseInt_dec_0
      ParseInt_dec_minus_1)

lemma History_loop_wallbox_seven:
  "History_loop wallbox_seven 100 [] [] =
     ([Log_of (entry 5), Log_of (entry 6), Log_of (entry 7)], None,
      [''report 100'', ''report 101'', ''report 102'', ''report 103'', ''report 104'',
       ''report 105''])"
  by (rule History_loop_six[OF slot_wallbox_seven(1) _ slot_wallbox_seven(2) _
        slot_wallbox_seven(3) _ slot_wallbox_seven(4) _ slot_wallbox_seven(5) _
        slot_wallbox_seven(6)]) simp_all


section \<open>Properties of the history\<close>

text \<open>
  C1. If the slots 100 to 105 decode to the session sequence numbers 5, 5, 6, 0, 7
  and -1 (slot 106 may hold anything, for instance 8), \<^verbatim>\<open>History\<close> returns without an
  error exactly the entries of the slots 100, 102 and 104, whose sequence numbers are
  5, 6, 7 in that order; the commands it sends are those of the slots 100 to 105, so
  the scan stops at slot 105 and no exchange is made for slot 106.
\<close>

theorem History_stops_at_negative:
  assumes "slot u 100 = (l0, None)" "udpLog.Session l0 = 5"
      and "slot u 101 = (l1, None)" "udpLog.Session l1 = 5"
      and "slot u 102 = (l2, None)" "udpLog.Session l2 = 6"
      and "slot u 103 = (l3, None)" "udpLog.Session l3 = 0"
      and "slot u 104 = (l4, None)" "udpLog.Session l4 = 7"
      and "slot u 105 = (l5, None)" "udpLog.Session l5 = - 1"
  shows "udp_History u = ([Log_of l0, Log_of l2, Log_of l4], None) \<and>
         map Log.Session (fst (udp_History u)) = [5, 6, 7] \<and>
         History_sent u =
           [''report 100'', ''report 101'', ''report 102'', ''report 103'', ''report 104'',
            ''report 105''] \<and>
         report_cmd 106 \<notin> set (History_sent u)"
  using History_loop_six[OF assms] assms
  by (simp add: udp_History_def History_sent_def report_cmd_values)

theorem History_stops_at_negative_witness:
  "map (\<lambda>k. slot wallbox_seven k) [100, 101, 102, 103, 104, 105, 106] =
     [(entry 5, None), (entry 5, None), (entry 6, None), (entry 0, None), (entry 7, None),
      (entry (- 1), None), (entry 8, None)] \<and>
   udp_History wallbox_seven = ([Log_of (entry 5), Log_of (entry 6), Log_of (entry 7)], None) \<and>
   map Log.Session (fst (udp_History wallbox_seven)) = [5, 6, 7] \<and>
   History_sent wallbox_seven =
     [''report 100'', ''report 101'', ''report 102'', ''report 103'', ''report 104'',
      ''report 105''] \<and>
   ''report 106'' \<notin> set (History_sent wallbox_seven)"
  using History_stops_at_negative[OF slot_wallbox_seven(1) _ slot_wallbox_seven(2) _
      slot_wallbox_seven(3) _ slot_wallbox_seven(4) _ slot_wallbox_seven(5) _
      slot_wallbox_seven(6)]
  by (simp add: slot_wallbox_seven report_cmd_values)

text \<open>
  C5. If the exchange of any command that \<^verbatim>\<open>History\<close> sends fails, in the transport or
  in decoding the reply, with the error \<open>e\<close>, then \<^verbatim>\<open>History\<close> returns exactly the
  error \<open>e\<close> together with the empty (\<^verbatim>\<open>nil\<close>) list: nothing of what was accumulated
  before the failure is returned.
\<close>

theorem History_exchange_fails:
  assumes "c \<in> set (History_sent u)"
      and "udp_msg u c Decode_udpLog zero_udpLog = (l, Some e)"
  shows "udp_History u = ([], Some e)"
proof -
  obtain h eo s where loop: "History_loop u 100 [] [] = (h, eo, s)"
    by (cases "History_loop u 100 [] []") auto
  from assms(1) loop have "c \<in> set s" by (simp add: History_sent_def)
  moreover from assms(2) have "snd (exchange_of u c) = Some e" by (simp add: exchange_of_def)
  ultimately have "h = [] \<and> eo = Some e"
    using History_loop_fails[OF loop, of c e] by simp
  with loop show ?thesis by (simp add: udp_History_def)
qed

lemma slot_wallbox_broken:
  "slot wallbox_broken 100 = (entry 5, None)" "slot wallbox_broken 101 = (entry 6, None)"
  by (simp_all add: slot_def report_cmd_values wallbox_broken_def wallbox_def
      exchange_session_reply[where s = "''5''"] exchange_session_reply[where s = "''6''"]
      ParseInt_dec_5 ParseInt_dec_6)

lemma slot_wallbox_broken_102:
  "slot wallbox_broken 102 = (zero_udpLog, Some (UnmarshalTypeError ''string''))"
  by (simp add: slot_def report_cmd_values wallbox_broken_def wallbox_def exchange_of_def
      udp_msg_def Decode_session_string)

lemma History_loop_wallbox_broken:
  "History_loop wallbox_broken 100 [] [] =
     ([], Some (UnmarshalTypeError ''string''), [''report 100'', ''report 101'', ''report 102''])"
proof -
  have "History_loop wallbox_broken 100 [] [] =
      History_loop wallbox_broken 101 [Log_of (entry 5)] [report_cmd 100]"
    using History_loop_append[of 100 wallbox_broken "entry 5" "[]" "[]"]
    by (simp add: slot_wallbox_broken)
  also have "\<dots> = History_loop wallbox_broken 102 [Log_of (entry 5), Log_of (entry 6)]
      [report_cmd 100, report_cmd 101]"
    using History_loop_append[of 101 wallbox_broken "entry 6" "[Log_of (entry 5)]"]
    by (simp add: slot_wallbox_broken)
  also have "\<dots> = ([], Some (UnmarshalTypeError ''string''),
      [report_cmd 100, report_cmd 101, report_cmd 102])"
    using History_loop_err[of 102 wallbox_broken zero_udpLog]
    by (simp add: slot_wallbox_broken_102)
  finally show ?thesis by (simp add: report_cmd_values)
qed

theorem History_exchange_fails_witness:
  "''report 102'' \<in> set (History_sent wallbox_broken) \<and>
   udp_msg wallbox_broken ''report 102'' Decode_udpLog zero_udpLog =
     (zero_udpLog, Some (UnmarshalTypeError ''string'')) \<and>
   udp_History wallbox_broken = ([], Some (UnmarshalTypeError ''string''))"
proof -
  have a: "''report 102'' \<in> set (History_sent wallbox_broken)"
    by (simp add: History_sent_def History_loop_wallbox_broken)
  have b: "udp_msg wallbox_broken ''report 102'' Decode_udpLog zero_udpLog =
     (zero_udpLog, Some (UnmarshalTypeError ''string''))"
    using slot_wallbox_broken_102 by (simp add: slot_def exchange_of_def report_cmd_values)
  from History_exchange_fails[OF a b] a b show ?thesis by simp
qed

text \<open>
  C9. Every list that \<^verbatim>\<open>History\<close> returns without an error has only entries with a
  strictly positive session sequence number, has no two neighbouring entries with the
  same sequence number, and has at most 31 entries.
\<close>

theorem History_result_invariant:
  assumes "udp_History u = (hist, None)"
  shows "(\<forall>l\<in>set hist. 0 < Log.Session l) \<and> distinct_adj (map Log.Session hist) \<and>
         length hist \<le> 31"
proof -
  obtain s where loop: "History_loop u 100 [] [] = (hist, None, s)"
    using assms by (auto simp: udp_History_def split: prod.splits)
  have "hist_ok []" by (simp add: hist_ok_def)
  from History_loop_ok[OF this loop] History_loop_length[OF loop]
  show ?thesis by (simp add: hist_ok_def list_all_iff)
qed

theorem History_result_invariant_witness:
  "udp_History wallbox_seven = ([Log_of (entry 5), Log_of (entry 6), Log_of (entry 7)], None) \<and>
   list_all (\<lambda>l. 0 < Log.Session l) [Log_of (entry 5), Log_of (entry 6), Log_of (entry 7)] \<and>
   distinct_adj (map Log.Session [Log_of (entry 5), Log_of (entry 6), Log_of (entry 7)]) \<and>
   length [Log_of (entry 5), Log_of (entry 6), Log_of (entry 7)] \<le> 31"
proof -
  have h: "udp_History wallbox_seven =
      ([Log_of (entry 5), Log_of (entry 6), Log_of (entry 7)], None)"
    by (simp add: udp_History_def History_loop_wallbox_seven)
  from History_result_invariant[OF h] h show ?thesis by (simp add: list_all_iff)
qed

text \<open>The slots of the wallbox that repeats session 5 after session 6.\<close>

lemma upto_100_130:
  "[100..130] =
     [100, 101, 102, 103, 104, 105, 106, 107, 108, 109, 110, 111, 112, 113, 114, 115, 116,
      117, 118, 119, 120, 121, 122, 123, 124, 125, 126, 127, 128, 129, 130 :: int]"
  by (simp add: upto_rec1)

lemma exchange_wallbox_repeat:
  "exchange_of wallbox_repeat ''report 100'' = (entry 5, None)"
  "exchange_of wallbox_repeat ''report 101'' = (entry 6, None)"
  "exchange_of wallbox_repeat ''report 102'' = (entry 5, None)"
  by (simp_all add: wallbox_repeat_def wallbox_def
      exchange_session_reply[where s = "''5''"] exchange_session_reply[where s = "''6''"]
      ParseInt_dec_5 ParseInt_dec_6)

lemma exchange_wallbox_repeat_other:
  "cmd \<noteq> ''report 100'' \<Longrightarrow> cmd \<noteq> ''report 101'' \<Longrightarrow> cmd \<noteq> ''report 102'' \<Longrightarrow>
   exchange_of wallbox_repeat cmd = (entry 0, None)"
  by (rule exchange_session_reply[where s = "''0''"])
     (simp_all add: wallbox_repeat_def wallbox_def ParseInt_dec_0)

lemma slots_wallbox_repeat:
  "map (slot wallbox_repeat) [100..130] =
     [(entry 5, None), (entry 6, None), (entry 5, None)] @
     map (\<lambda>k. (entry 0, None))
       [103, 104, 105, 106, 107, 108, 109, 110, 111, 112, 113, 114, 115, 116, 117, 118,
        119, 120, 121, 122, 123, 124, 125, 126, 127, 128, 129, 130 :: int]"
  by (simp add: upto_100_130 slot_def report_cmd_def fmt_d_def fmt_nat.simps
      exchange_wallbox_repeat exchange_wallbox_repeat_other)

text \<open>
  C6. If every slot from 100 to 130 is answered and decoded and none carries a negative
  session sequence number, \<^verbatim>\<open>History\<close> sends the commands of all 31 slots in order
  and returns without an error the entries accepted by the specification's rule (a
  sequence number that is not zero and differs from that of the entry accepted last),
  in slot order. The comparison is with the last accepted entry only: on the wallbox
  whose slots carry 5, 6, 5 and then zeros, session 5 is returned twice.
\<close>

theorem History_full_scan:
  assumes "\<forall>k\<in>{100..130}. \<exists>l. slot u k = (l, None) \<and> 0 \<le> udpLog.Session l"
  shows "History_sent u = map report_cmd [100..130] \<and> length (History_sent u) = 31 \<and>
         udp_History u = (accepted_from None (map (\<lambda>k. fst (slot u k)) [100..130]), None)"
proof -
  from assms
  have "\<forall>k\<in>{100..130}. snd (slot u k) = None \<and> 0 \<le> udpLog.Session (fst (slot u k))"
    by fastforce
  from History_loop_full[OF _ this, of "[]" "[]"]
  show ?thesis by (simp add: udp_History_def History_sent_def last_Session_def)
qed

theorem History_full_scan_witness:
  "map (\<lambda>k. udpLog.Session (fst (slot wallbox_repeat k))) [100..130] =
     [5, 6, 5, 0, 0, 0, 0, 0, 0, 0, 0, 0, 0, 0, 0, 0, 0, 0, 0, 0, 0, 0, 0, 0, 0, 0, 0, 0, 0,
      0, 0] \<and>
   length (History_sent wallbox_repeat) = 31 \<and>
   udp_History wallbox_repeat = ([Log_of (entry 5), Log_of (entry 6), Log_of (entry 5)], None)"
proof -
  have "list_all (\<lambda>k. \<exists>l. slot wallbox_repeat k = (l, None) \<and> 0 \<le> udpLog.Session l)
      [100..130]"
    using slots_wallbox_repeat by (simp add: upto_100_130)
  then have "\<forall>k\<in>{100..130}. \<exists>l. slot wallbox_repeat k = (l, None) \<and> 0 \<le> udpLog.Session l"
    by (simp only: list_all_iff set_upto)
  from History_full_scan[OF this] slots_wallbox_repeat
  show ?thesis by (simp add: upto_100_130)
qed


section \<open>Decimal texts\<close>
















section \<open>Objects decoded member by member\<close>










section \<open>The time stamps of a history slot\<close>





lemma long_s_selects_started:
  "field_of times_fields (CHR 0xC5 # CHR 0xBF # ''tarted[s]'') = Some ''started[s]''"
  by (simp add: field_of_def times_fields_def equalFold_def fold_byte_def)

lemma kelvin_selects_Backend:
  "field_of System_fields (''Bac'' @ CHR 0xE2 # CHR 0x84 # CHR 0xAA # ''end'') = Some ''Backend''"
  by (simp add: field_of_def System_fields_def equalFold_def fold_byte_def)













text \<open>What the decoding of an object into an entry amounts to.\<close>

lemma udpLog_UnmarshalJSON_object:
  "udpLog_UnmarshalJSON l (JObject kvs) =
     (case object_members udpLog_store kvs l None of
        (l1, Some err) \<Rightarrow> (l1, Some err)
      | (l1, None) \<Rightarrow>
          (case object_members times_store kvs zero_times None of
             (t, Some err) \<Rightarrow> (l1, Some err)
           | (t, None) \<Rightarrow>
               let l2 = (case Number_Int64 (t_Start t) of
                           (i, None) \<Rightarrow> l1\<lparr>udpLog.Start := i\<rparr>
                         | (i, Some err) \<Rightarrow> l1);
                   l3 = (case Number_Int64 (t_End t) of
                           (i, None) \<Rightarrow> l2\<lparr>udpLog.End := i\<rparr>
                         | (i, Some err) \<Rightarrow> l2)
               in (l3, None)))"
  by (simp add: udpLog_UnmarshalJSON_def split: prod.splits option.splits)









text \<open>
  A member \<^verbatim>\<open>"Start"\<close> of the reply is decoded into the untagged field: it sets the
  time stamp although the reply has no \<^verbatim>\<open>"started[s]"\<close>.
\<close>

lemma untagged_Start_member:
  "udpLog_UnmarshalJSON stale_entry (JObject [(''Start'', JNumber ''5'')]) =
     (stale_entry\<lparr>udpLog.Start := 5\<rparr>, None)"
  by (simp add: udpLog_UnmarshalJSON_object udpLog_store_def times_store_def field_of_def
      udpLog_fields_def times_fields_def equalFold_def fold_byte_def ParseInt_dec_5
      zero_times_def Number_Int64_def ParseInt_def[of "[]"])


section \<open>Properties of the time stamps\<close>


lemma ParseInt_dec_1698: "ParseInt ''1698'' 10 64 = (1698, None)"
  by (simp add: ParseInt_def ParseUint_def maxUint64_def digit_def)









section \<open>The records returned with an error\<close>









subsection \<open>The reports of the wallboxes\<close>














end
